theory Spec2Isabelle
  imports Complex_Main "HOL-Library.Multiset"
begin

section \<open>Quasiparticle states and lists of them (abipy/electrons/gw.py)\<close>

text \<open>
  Energies are Python floats; they are modelled as reals (the code only compares, sorts and
  subtracts them).  The k-point of a state is an object of the class \<open>Kpoint\<close>, which lives
  outside this file: it is a type parameter \<open>'k\<close>, compared with HOL equality where the
  code compares \<open>(spin, kpoint, band)\<close> tuples with \<open>==\<close>.
\<close>

record 'k QPState =
  spin :: nat
  kpoint :: 'k
  band :: nat
  e0 :: real
  qpe :: complex
  qpe_diago :: real
  vxcme :: complex
  sigxme :: complex
  sigcmee0 :: complex
  vUme :: complex
  ze0 :: complex

text \<open>The property \<open>qpeme0\<close>: \<open>self.qpe - self.e0\<close>.\<close>

definition qpeme0 :: "'k QPState \<Rightarrow> complex" where
  "qpeme0 qp = qpe qp - complex_of_real (e0 qp)"

text \<open>The property \<open>skb\<close>: the tuple \<open>(spin, kpoint, band)\<close>.\<close>

definition skb :: "'k QPState \<Rightarrow> nat \<times> 'k \<times> nat" where
  "skb qp = (spin qp, kpoint qp, band qp)"

text \<open>\<open>QPState.copy\<close>: a new state built from a copy of every field.\<close>

definition QPState_copy :: "'k QPState \<Rightarrow> 'k QPState" where
  "QPState_copy qp =
     \<lparr>spin = spin qp, kpoint = kpoint qp, band = band qp, e0 = e0 qp, qpe = qpe qp,
      qpe_diago = qpe_diago qp, vxcme = vxcme qp, sigxme = sigxme qp,
      sigcmee0 = sigcmee0 qp, vUme = vUme qp, ze0 = ze0 qp\<rparr>"

subsection \<open>Exceptions\<close>

text \<open>
  The messages of the \<open>ValueError\<close>s raised in this file.  A message formatted with a value
  carries that value; \<open>No_message\<close> is the bare \<open>raise ValueError\<close> of \<open>monty.bisect\<close>;
  \<open>Text\<close> is a message given as a string.
\<close>

datatype 'k message =
    Not_e0sorted
  | Min_not_included real
  | Max_not_included real
  | Not_increasing
  | Duplicated_skb "nat \<times> 'k \<times> nat"
  | No_message
  | Text string

datatype 'k exn =
    ValueError "'k message"
  | IndexError
  | NameError string
  | AttributeError string
  | External string

subsection \<open>QPList\<close>

text \<open>
  \<open>QPList\<close> is a Python list with one more attribute, \<open>is_e0sorted\<close>, which
  \<open>__init__\<close> sets from the keyword argument of that name, \<open>False\<close> when it is absent.
\<close>

record 'k QPList =
  states :: "'k QPState list"
  is_e0sorted :: bool

definition QPList_init :: "'k QPState list \<Rightarrow> bool option \<Rightarrow> 'k QPList" where
  "QPList_init args kw =
     \<lparr>states = args, is_e0sorted = (case kw of None \<Rightarrow> False | Some b \<Rightarrow> b)\<rparr>"

definition QPList_copy :: "'k QPList \<Rightarrow> 'k QPList" where
  "QPList_copy self = QPList_init (map QPState_copy (states self)) (Some (is_e0sorted self))"

text \<open>\<open>sorted(self, key=lambda qp: qp.e0)\<close> is a stable sort, as \<open>sort_key\<close> is.\<close>

definition sort_by_e0 :: "'k QPList \<Rightarrow> 'k QPList" where
  "sort_by_e0 self = QPList_init (sort_key e0 (states self)) (Some True)"

definition get_e0mesh :: "'k QPList \<Rightarrow> 'k exn + real list" where
  "get_e0mesh self =
     (if \<not> is_e0sorted self then Inl (ValueError Not_e0sorted)
      else Inr (map e0 (states self)))"

definition get_field :: "('k QPState \<Rightarrow> 'a) \<Rightarrow> 'k QPList \<Rightarrow> 'a list" where
  "get_field field self = map field (states self)"

definition get_qpeme0 :: "'k QPList \<Rightarrow> complex list" where
  "get_qpeme0 self = get_field qpeme0 self"

text \<open>
  \<open>merge\<close>: the loop over \<open>other\<close> raises at the first state whose key is in
  \<open>skb0_list\<close>; \<open>self + other\<close> is a plain list, so the list returned is built by
  \<open>self.__class__(qps)\<close> with no keyword argument.
\<close>

definition merge :: "'k QPList \<Rightarrow> 'k QPList \<Rightarrow> bool \<Rightarrow> 'k exn + 'k QPList" where
  "merge self other copy =
     (let skb0_list = map skb (states self) in
      case find (\<lambda>qp. skb qp \<in> set skb0_list) (states other) of
        Some qp \<Rightarrow> Inl (ValueError (Duplicated_skb (skb qp)))
      | None \<Rightarrow>
          (let qps = (if copy then states (QPList_copy self) @ states (QPList_copy other)
                       else states self @ states other)
           in Inr (QPList_init qps None)))"

section \<open>Ordered search (bisect, monty.bisect)\<close>

text \<open>
  \<open>build_scissors\<close> calls \<open>find_ge\<close> and \<open>find_le\<close> of the third-party library
  \<open>monty.bisect\<close> and uses what they return as indices (\<open>e0mesh[start:stop+1]\<close>).  They
  are the index-returning variants of the recipes of Python's \<open>bisect\<close> module:
  \<open>find_ge(a, x)\<close>, "find leftmost item greater than or equal to x", is
  \<open>i = bisect_left(a, x)\<close>, returned when \<open>i != len(a)\<close>, and \<open>find_le(a, x)\<close>, "find
  rightmost value less than or equal to x", is \<open>i = bisect_right(a, x)\<close>, with \<open>i - 1\<close>
  returned when \<open>i\<close> is not zero; both end in a bare \<open>raise ValueError\<close>.  The two
  bisections are the loops of \<open>Lib/bisect.py\<close>, with \<open>lo = 0\<close> and \<open>hi = len(a)\<close> at the
  call.
\<close>

function bisect_left_loop :: "real list \<Rightarrow> real \<Rightarrow> nat \<Rightarrow> nat \<Rightarrow> nat" where
  "bisect_left_loop a x lo hi =
     (if lo < hi then
        (let mid = (lo + hi) div 2 in
         if a ! mid < x then bisect_left_loop a x (mid + 1) hi
         else bisect_left_loop a x lo mid)
      else lo)"
  by pat_completeness auto
termination
  by (relation "measure (\<lambda>(a, x, lo, hi). hi - lo)") auto

declare bisect_left_loop.simps [simp del]

function bisect_right_loop :: "real list \<Rightarrow> real \<Rightarrow> nat \<Rightarrow> nat \<Rightarrow> nat" where
  "bisect_right_loop a x lo hi =
     (if lo < hi then
        (let mid = (lo + hi) div 2 in
         if x < a ! mid then bisect_right_loop a x lo mid
         else bisect_right_loop a x (mid + 1) hi)
      else lo)"
  by pat_completeness auto
termination
  by (relation "measure (\<lambda>(a, x, lo, hi). hi - lo)") auto

declare bisect_right_loop.simps [simp del]

definition bisect_left :: "real list \<Rightarrow> real \<Rightarrow> nat" where
  "bisect_left a x = bisect_left_loop a x 0 (length a)"

definition bisect_right :: "real list \<Rightarrow> real \<Rightarrow> nat" where
  "bisect_right a x = bisect_right_loop a x 0 (length a)"

definition find_ge :: "real list \<Rightarrow> real \<Rightarrow> 'k exn + nat" where
  "find_ge a x =
     (let i = bisect_left a x in
      if i \<noteq> length a then Inr i else Inl (ValueError No_message))"

definition find_le :: "real list \<Rightarrow> real \<Rightarrow> 'k exn + nat" where
  "find_le a x =
     (let i = bisect_right a x in
      if i \<noteq> 0 then Inr (i - 1) else Inl (ValueError No_message))"

section \<open>The scissors operator (QPList.build_scissors)\<close>

text \<open>
  Modelled from the spec: the class \<open>Scissors\<close> of abipy/electrons/scissors.py, which this
  module imports.  The spec describes the object returned as "a scissor object holding
  the ordered domain list and one fitted function per domain"; \<open>build_scissors\<close> builds it
  with \<open>Scissors(func_list, domains, residues, bounds)\<close>, so it is the record of these
  four arguments.
\<close>

record ('f, 'b) Scissors =
  sc_func_list :: "'f list"
  sc_domains :: "(real \<times> real) list"
  sc_residues :: "real list"
  sc_bounds :: "'b option"

text \<open>
  \<open>domains\<close> is a list of pairs \<open>[low, high]\<close>; \<open>np.atleast_2d(domains).ravel()\<close> is the
  list of their boundaries, in order.
\<close>

definition ravel :: "(real \<times> real) list \<Rightarrow> real list" where
  "ravel doms = concat (map (\<lambda>(low, high). [low, high]) doms)"

text \<open>
  One turn of the loop that checks the boundaries, at index \<open>idx\<close> of \<open>dflat\<close>: the four
  tests in the order of the source.  \<open>e0mesh[0]\<close> and \<open>e0mesh[-1]\<close> raise \<open>IndexError\<close>
  on an empty array, and \<open>dflat[idx-1]\<close> is the last boundary when \<open>idx\<close> is 0.
\<close>

definition check_boundary :: "real list \<Rightarrow> real list \<Rightarrow> nat \<Rightarrow> 'k exn + unit" where
  "check_boundary e0mesh dflat idx =
     (let dsize = length dflat; v = dflat ! idx in
      if idx = 0 \<and> e0mesh = [] then Inl IndexError
      else if idx = 0 \<and> v > hd e0mesh then Inl (ValueError (Min_not_included (hd e0mesh)))
      else if idx = dsize - 1 \<and> e0mesh = [] then Inl IndexError
      else if idx = dsize - 1 \<and> v < last e0mesh
        then Inl (ValueError (Max_not_included (last e0mesh)))
      else if idx \<noteq> dsize - 1 \<and> dflat ! idx > dflat ! (idx + 1)
        then Inl (ValueError Not_increasing)
      else if idx = dsize - 1 \<and> dflat ! idx < dflat ! (if idx = 0 then dsize - 1 else idx - 1)
        then Inl (ValueError Not_increasing)
      else Inr ())"

fun check_loop :: "real list \<Rightarrow> real list \<Rightarrow> nat list \<Rightarrow> 'k exn + unit" where
  "check_loop e0mesh dflat [] = Inr ()"
| "check_loop e0mesh dflat (idx # idxs) =
     (case check_boundary e0mesh dflat idx of
        Inl err \<Rightarrow> Inl err
      | Inr u \<Rightarrow> check_loop e0mesh dflat idxs)"

definition check_domains :: "real list \<Rightarrow> real list \<Rightarrow> 'k exn + unit" where
  "check_domains e0mesh dflat = check_loop e0mesh dflat [0..<length dflat]"

text \<open>\<open>a[start:stop]\<close> for indices that are not negative.\<close>

definition slice :: "'a list \<Rightarrow> nat \<Rightarrow> nat \<Rightarrow> 'a list" where
  "slice a start stop = drop start (take stop a)"

text \<open>
  The weights of one fit: \<open>w = len(dom_e0)*[1]\<close>, then \<open>w[-1] = 1000\<close> when \<open>ndom\<close> is 1,
  \<open>w[0] = 1000\<close> when it is 2 (both raise \<open>IndexError\<close> on an empty list), and
  \<open>w = None\<close> otherwise.
\<close>

definition weights :: "nat \<Rightarrow> nat \<Rightarrow> 'k exn + int list option" where
  "weights ndom n =
     (let w = replicate n (1::int) in
      if ndom = 1 then (if w = [] then Inl IndexError else Inr (Some (w[n - 1 := 1000])))
      else if ndom = 2 then (if w = [] then Inl IndexError else Inr (Some (w[0 := 1000])))
      else Inr None)"

text \<open>
  The loop over the domains.  \<open>spline x y w k\<close> stands for
  \<open>UnivariateSpline(x, y, w=w, bbox=[None, None], k=k, s=None)\<close> of scipy, which may raise,
  and \<open>residual f\<close> for \<open>f.get_residual()\<close>; \<open>func_list\<close> and \<open>residues\<close> are the two lists
  the loop appends to.
\<close>

fun fit_domains ::
  "(real list \<Rightarrow> complex list \<Rightarrow> int list option \<Rightarrow> nat \<Rightarrow> 'k exn + 'f) \<Rightarrow> ('f \<Rightarrow> real) \<Rightarrow>
   real list \<Rightarrow> complex list \<Rightarrow> nat \<Rightarrow> nat \<Rightarrow> (real \<times> real) list \<Rightarrow> 'f list \<Rightarrow> real list \<Rightarrow>
   'k exn + ('f list \<times> real list)" where
  "fit_domains spline residual e0mesh qpcorrs k ndom [] func_list residues =
     Inr (func_list, residues)"
| "fit_domains spline residual e0mesh qpcorrs k ndom ((low, high) # doms) func_list residues =
     (let ndom = ndom + 1 in
      case find_ge e0mesh low of
        Inl err \<Rightarrow> Inl err
      | Inr start \<Rightarrow>
      (case find_le e0mesh high of
        Inl err \<Rightarrow> Inl err
      | Inr stop \<Rightarrow>
      (let dom_e0 = slice e0mesh start (stop + 1);
           dom_corr = slice qpcorrs start (stop + 1)
       in case weights ndom (length dom_e0) of
            Inl err \<Rightarrow> Inl err
          | Inr w \<Rightarrow>
          (case spline dom_e0 dom_corr w k of
            Inl err \<Rightarrow> Inl err
          | Inr f \<Rightarrow>
              fit_domains spline residual e0mesh qpcorrs k ndom doms
                (func_list @ [f]) (residues @ [residual f])))))"

text \<open>
  \<open>build_scissors\<close> (without the optional plot).  An empty \<open>domains\<close> becomes an array of
  one empty row, whose \<open>dom[0]\<close> raises \<open>IndexError\<close> in the loop of the fits.
\<close>

definition build_scissors ::
  "(real list \<Rightarrow> complex list \<Rightarrow> int list option \<Rightarrow> nat \<Rightarrow> 'k exn + 'f) \<Rightarrow> ('f \<Rightarrow> real) \<Rightarrow>
   'k QPList \<Rightarrow> (real \<times> real) list \<Rightarrow> 'b option \<Rightarrow> nat \<Rightarrow> 'k exn + ('f, 'b) Scissors" where
  "build_scissors spline residual self doms bounds k =
     (let qps = sort_by_e0 self in
      case get_e0mesh qps of
        Inl err \<Rightarrow> Inl err
      | Inr e0mesh \<Rightarrow>
      (let qpcorrs = get_qpeme0 qps; dflat = ravel doms in
       case check_domains e0mesh dflat of
         Inl err \<Rightarrow> Inl err
       | Inr u \<Rightarrow>
           if doms = [] then Inl IndexError
           else
             (let ndom = (if length doms = 2 then 0 else 99) in
              case fit_domains spline residual e0mesh qpcorrs k ndom doms [] [] of
                Inl err \<Rightarrow> Inl err
              | Inr (func_list, residues) \<Rightarrow>
                  Inr \<lparr>sc_func_list = func_list, sc_domains = doms,
                       sc_residues = residues, sc_bounds = bounds\<rparr>)))"

section \<open>Interpolation of the corrections in k-space (SigresFile.interpolate)\<close>

text \<open>
  What \<open>interpolate\<close> reads of the file object: the GW k-points, the k-points of the
  irreducible zone, \<open>min_gwbstop\<close> and the structure (\<open>self.structure\<close>).
\<close>

record ('q, 's) SigresFile =
  gwkpoints :: "'q list"
  ibz :: "'q list"
  min_gwbstop :: int
  sigres_structure :: 's

text \<open>
  Modelled from the spec: the class \<open>ElectronBands\<close> of abipy/electrons/ebands.py, which
  this module imports, "an externally supplied reference band structure" with "the
  structure associated" with it.  \<open>interpolate\<close> reads its attributes \<open>nband\<close> and
  \<open>structure\<close>; the rest of its data (k-points, eigenvalues, homos) is read by the
  collaborators only.  Structures are compared with HOL equality where the code compares
  them with \<open>!=\<close>.
\<close>

record ('s, 'd) ElectronBands =
  nband :: int
  eb_structure :: 's
  eb_data :: 'd

text \<open>
  The steps of \<open>interpolate\<close> that run code outside this file (the reader of the file, the
  symmetries of the structure, \<open>Kpath\<close>, \<open>SkwInterpolator\<close>, the constructor of
  \<open>ElectronBands\<close>) are the fields of a record of collaborators, each of which may raise:
  \<^item> \<open>path_kpoints\<close>: the symmetries and the k-points of the path, generated from the
    structure or taken from \<open>ks_ebands_kpath\<close>;
  \<^item> \<open>read_egw\<close>: the GW energies read from the file;
  \<^item> \<open>subtract_e0\<close>: \<open>egw_rarr -= self.reader.read_value("e0")\<close>;
  \<^item> \<open>build_skw\<close>: \<open>qpdata\<close>, its slice \<open>bstart:bstop\<close> and the \<open>SkwInterpolator\<close>;
  \<^item> \<open>kpath_bands\<close>: the interpolation on the path and the new band structure;
  \<^item> \<open>kmesh_bands\<close>: the interpolation on the mesh and the new band structure.
\<close>

record ('k, 'd, 'p, 'a, 'i, 'r) collaborators =
  path_kpoints :: "'d option \<Rightarrow> 'k exn + 'p"
  read_egw :: "'k exn + 'a"
  subtract_e0 :: "'a \<Rightarrow> 'k exn + 'a"
  build_skw :: "'p \<Rightarrow> 'a \<Rightarrow> int \<Rightarrow> int \<Rightarrow> 'k exn + 'i"
  kpath_bands :: "'i \<Rightarrow> 'p \<Rightarrow> 'd option \<Rightarrow> int \<Rightarrow> int \<Rightarrow> 'k exn + 'r"
  kmesh_bands :: "'i \<Rightarrow> 'd \<Rightarrow> int \<Rightarrow> int \<Rightarrow> 'k exn + 'r"

record ('s, 'd, 'i, 'r) interp_result =
  qp_ebands_kpath :: 'r
  qp_ebands_kmesh :: "'r option"
  ks_ebands_kpath :: "('s, 'd) ElectronBands option"
  ks_ebands_kmesh :: "('s, 'd) ElectronBands option"
  interpolator :: 'i

fun join_lines :: "string list \<Rightarrow> string" where
  "join_lines [] = []"
| "join_lines [l] = l"
| "join_lines (l # l' # ls) = l @ [CHR 0x0A] @ join_lines (l' # ls)"

text \<open>
  The second part of \<open>interpolate\<close>, for a \<open>ks_ebands_kmesh\<close> that is given.  The message
  of the first \<open>ValueError\<close> is formatted from \<open>ks_ebands_kmesh%nband\<close>, where \<open>nband\<close>
  is a name bound nowhere in the module: evaluating it raises \<open>NameError\<close>.  The second
  test reads \<open>ks_ebands_kpath.structure\<close>, an \<open>AttributeError\<close> when \<open>ks_ebands_kpath\<close>
  is \<open>None\<close>.
\<close>

definition interpolate_kmesh ::
  "('k, 'd, 'p, 'a, 'i, 'r) collaborators \<Rightarrow> ('q, 's) SigresFile \<Rightarrow>
   ('s, 'd) ElectronBands option \<Rightarrow> ('s, 'd) ElectronBands \<Rightarrow> 'i \<Rightarrow> int \<Rightarrow> int \<Rightarrow>
   'k exn + 'r" where
  "interpolate_kmesh ext self kpath kmesh skw bstart bstop =
     (if bstop > nband kmesh then Inl (NameError ''nband'')
      else
        (case kpath of
           None \<Rightarrow> Inl (AttributeError ''structure'')
         | Some eb \<Rightarrow>
             if eb_structure eb \<noteq> sigres_structure self
             then Inl (ValueError (Text
               ''sigres.structure and ks_ebands_kmesh.structures differ. Check your files!''))
             else kmesh_bands ext skw (eb_data kmesh) bstart bstop))"

text \<open>
  \<open>interpolate\<close>: the lines printed by \<open>cprint\<close>, in order, and the exception raised or
  the result returned.
\<close>

definition interpolate ::
  "('k, 'd, 'p, 'a, 'i, 'r) collaborators \<Rightarrow> ('q, 's) SigresFile \<Rightarrow>
   ('s, 'd) ElectronBands option \<Rightarrow> ('s, 'd) ElectronBands option \<Rightarrow>
   string list \<times> ('k exn + ('s, 'd, 'i, 'r) interp_result)" where
  "interpolate ext self kpath kmesh =
     (let errlines =
        (if length (gwkpoints self) \<noteq> length (ibz self)
         then [''QP energies should be computed for all k-points in the IBZ but nkibz != nkptgw'']
         else []) @
        (if length (gwkpoints self) = 1 then [''QP Interpolation requires nkptgw > 1.''] else [])
      in
      if errlines \<noteq> [] then ([], Inl (ValueError (Text (join_lines errlines))))
      else
      (case path_kpoints ext (map_option eb_data kpath) of
        Inl err \<Rightarrow> ([], Inl err)
      | Inr kpts \<Rightarrow>
      (let bstart = 0;
           bstop = (case kpath of None \<Rightarrow> - 1 | Some eb \<Rightarrow> min (nband eb) (min_gwbstop self));
           out1 = (case kpath of
                     None \<Rightarrow> []
                   | Some eb \<Rightarrow>
                       if nband eb < min_gwbstop self
                       then [''Number of bands in KS band structure smaller than the number of bands in GW corrections'',
                             ''Highest GW bands will be ignored'']
                       else [])
       in
       case read_egw ext of
         Inl err \<Rightarrow> (out1, Inl err)
       | Inr egw \<Rightarrow>
       (let out2 = out1 @
              (case kpath of
                 None \<Rightarrow> []
               | Some eb \<Rightarrow>
                   if eb_structure eb \<noteq> sigres_structure self
                   then [''sigres.structure and ks_ebands_kpath.structures differ. Check your files!'']
                   else [])
        in
        case (case kpath of None \<Rightarrow> Inr egw | Some eb \<Rightarrow> subtract_e0 ext egw) of
          Inl err \<Rightarrow> (out2, Inl err)
        | Inr egw_rarr \<Rightarrow>
        (case build_skw ext kpts egw_rarr bstart bstop of
          Inl err \<Rightarrow> (out2, Inl err)
        | Inr skw \<Rightarrow>
        (case kpath_bands ext skw kpts (map_option eb_data kpath) bstart bstop of
          Inl err \<Rightarrow> (out2, Inl err)
        | Inr qp_kpath \<Rightarrow>
        (case kmesh of
          None \<Rightarrow>
            (out2, Inr \<lparr>qp_ebands_kpath = qp_kpath, qp_ebands_kmesh = None,
                        ks_ebands_kpath = kpath, ks_ebands_kmesh = kmesh, interpolator = skw\<rparr>)
        | Some km \<Rightarrow>
            (case interpolate_kmesh ext self kpath km skw bstart bstop of
               Inl err \<Rightarrow> (out2, Inl err)
             | Inr qp_kmesh \<Rightarrow>
                 (out2, Inr \<lparr>qp_ebands_kpath = qp_kpath, qp_ebands_kmesh = Some qp_kmesh,
                             ks_ebands_kpath = kpath, ks_ebands_kmesh = kmesh,
                             interpolator = skw\<rparr>)))))))))"

section \<open>Concrete inputs\<close>

text \<open>A state of spin 0 at k-point \<open>ik\<close> and band \<open>b\<close>, with KS energy \<open>e\<close> and QP energy \<open>q\<close>.\<close>

definition mk_qp :: "nat \<Rightarrow> nat \<Rightarrow> real \<Rightarrow> complex \<Rightarrow> nat QPState" where
  "mk_qp ik b e q =
     \<lparr>spin = 0, kpoint = ik, band = b, e0 = e, qpe = q, qpe_diago = 0, vxcme = 0,
      sigxme = 0, sigcmee0 = 0, vUme = 0, ze0 = 1\<rparr>"

text \<open>
  A fitting function that never raises and returns the arguments of its call, so that the
  list of fitted functions of a \<open>Scissors\<close> shows what each fit was called with;
  \<open>fit_weights\<close> reads the weights of the calls.
\<close>

definition record_fit ::
  "real list \<Rightarrow> complex list \<Rightarrow> int list option \<Rightarrow> nat \<Rightarrow>
   nat exn + (real list \<times> complex list \<times> int list option \<times> nat)" where
  "record_fit x y w k = Inr (x, y, w, k)"

definition no_residual :: "real list \<times> complex list \<times> int list option \<times> nat \<Rightarrow> real" where
  "no_residual f = 0"

definition fit_weights ::
  "(real list \<times> complex list \<times> int list option \<times> nat, 'b) Scissors \<Rightarrow> int list option list" where
  "fit_weights sc = map (\<lambda>(x, y, w, k). w) (sc_func_list sc)"

text \<open>
  Eight states, given unsorted: four with \<open>e0\<close> in \<open>[0, 4]\<close> (two of them at \<open>e0 = 3\<close>, with
  the corrections 1 and 4) and four with \<open>e0\<close> in \<open>[5, 10]\<close>; and what \<open>build_scissors\<close>
  makes of them with these two domains, \<open>k = 3\<close> and the fitting function \<open>record_fit\<close>.
\<close>

definition two_bands :: "nat QPList" where
  "two_bands =
     \<lparr>states = [mk_qp 0 2 6 8, mk_qp 0 0 1 2, mk_qp 1 1 3 4, mk_qp 0 1 2 4, mk_qp 1 2 7 10,
                mk_qp 1 0 3 7, mk_qp 2 2 8 11, mk_qp 2 3 9 11],
      is_e0sorted = False\<rparr>"

definition two_bands_scissors ::
  "(real list \<times> complex list \<times> int list option \<times> nat, unit) Scissors" where
  "two_bands_scissors =
     \<lparr>sc_func_list = [([1, 2, 3, 3], [1, 2, 1, 4], Some [1, 1, 1, 1000], 3),
                       ([6, 7, 8, 9], [2, 3, 3, 2], Some [1000, 1, 1, 1], 3)],
      sc_domains = [(0, 4), (5, 10)], sc_residues = [0, 0], sc_bounds = None\<rparr>"

text \<open>The same states, with the two states at \<open>e0 = 3\<close> exchanged in the input.\<close>

definition two_bands_swapped :: "nat QPList" where
  "two_bands_swapped =
     \<lparr>states = [mk_qp 0 2 6 8, mk_qp 0 0 1 2, mk_qp 1 0 3 7, mk_qp 0 1 2 4, mk_qp 1 2 7 10,
                mk_qp 1 1 3 4, mk_qp 2 2 8 11, mk_qp 2 3 9 11],
      is_e0sorted = False\<rparr>"

definition two_bands_swapped_scissors ::
  "(real list \<times> complex list \<times> int list option \<times> nat, unit) Scissors" where
  "two_bands_swapped_scissors =
     \<lparr>sc_func_list = [([1, 2, 3, 3], [1, 2, 4, 1], Some [1, 1, 1, 1000], 3),
                       ([6, 7, 8, 9], [2, 3, 3, 2], Some [1000, 1, 1, 1], 3)],
      sc_domains = [(0, 4), (5, 10)], sc_residues = [0, 0], sc_bounds = None\<rparr>"

text \<open>Three states with distinct energies, and a permutation of them.\<close>

definition three_states :: "nat QPList" where
  "three_states = \<lparr>states = [mk_qp 0 1 2 4, mk_qp 0 0 1 2, mk_qp 0 2 6 8], is_e0sorted = False\<rparr>"

definition three_states_permuted :: "nat QPList" where
  "three_states_permuted =
     \<lparr>states = [mk_qp 0 2 6 8, mk_qp 0 1 2 4, mk_qp 0 0 1 2], is_e0sorted = True\<rparr>"

text \<open>
  Collaborators that never raise, a file with two GW k-points and one with a single k-point,
  and a reference band structure with \<open>n\<close> bands on the structure \<open>s\<close> (the structure of
  the two files is 0).
\<close>

definition ok_ext :: "(nat, unit, unit, unit, unit, nat) collaborators" where
  "ok_ext =
     \<lparr>path_kpoints = (\<lambda>d. Inr ()), read_egw = Inr (), subtract_e0 = (\<lambda>a. Inr ()),
      build_skw = (\<lambda>p a bstart bstop. Inr ()),
      kpath_bands = (\<lambda>i p d bstart bstop. Inr 1),
      kmesh_bands = (\<lambda>i d bstart bstop. Inr 2)\<rparr>"

definition sigres_two_kpoints :: "(nat, nat) SigresFile" where
  "sigres_two_kpoints = \<lparr>gwkpoints = [0, 1], ibz = [0, 1], min_gwbstop = 5, sigres_structure = 0\<rparr>"

definition sigres_one_kpoint :: "(nat, nat) SigresFile" where
  "sigres_one_kpoint = \<lparr>gwkpoints = [0], ibz = [0], min_gwbstop = 5, sigres_structure = 0\<rparr>"

definition ks_bands :: "int \<Rightarrow> nat \<Rightarrow> (nat, unit) ElectronBands" where
  "ks_bands n s = \<lparr>nband = n, eb_structure = s, eb_data = ()\<rparr>"

section \<open>Properties of QPList\<close>

lemma QPState_copy_id: "QPState_copy qp = qp"
  by (simp add: QPState_copy_def)

lemma QPList_copy_states: "states (QPList_copy l) = states l"
  by (simp add: QPList_copy_def QPList_init_def QPState_copy_id map_idI)

lemma merge_disjoint:
  assumes "\<forall>qp\<in>set (states other). skb qp \<notin> set (map skb (states self))"
  shows "merge self other copy = Inr (QPList_init (states self @ states other) None)"
proof -
  have "find (\<lambda>qp. skb qp \<in> set (map skb (states self))) (states other) = None"
    using assms by (simp add: find_None_iff)
  then show ?thesis
    by (simp add: merge_def QPList_copy_states)
qed

lemma merge_collision:
  assumes "\<exists>qp\<in>set (states other). skb qp \<in> set (map skb (states self))"
  shows "\<exists>qp\<in>set (states other). skb qp \<in> set (map skb (states self)) \<and>
           merge self other copy = Inl (ValueError (Duplicated_skb (skb qp)))"
proof -
  from assms obtain qp where
    f: "find (\<lambda>qp. skb qp \<in> set (map skb (states self))) (states other) = Some qp"
    by (cases "find (\<lambda>qp. skb qp \<in> set (map skb (states self))) (states other)")
       (auto simp: find_None_iff)
  then have "qp \<in> set (states other)" "skb qp \<in> set (map skb (states self))"
    by (auto simp: find_Some_iff)
  with f show ?thesis
    by (auto simp: merge_def)
qed

text \<open>
  C5: \<open>merge\<close> raises the \<open>ValueError\<close> of duplicated keys exactly when a state of
  \<open>other\<close> has the \<open>(spin, kpoint, band)\<close> key of a state of \<open>self\<close>, and the key in the
  message is such a key; when the keys are disjoint it returns a new list, the states of
  \<open>self\<close> followed by those of \<open>other\<close>, whose length is the sum of the two lengths.
  (The function only reads its two arguments: they are values here, and nothing is
  assigned to them in the source.)
\<close>

theorem merge_duplicate_keys:
  "((\<exists>qp\<in>set (states other). skb qp \<in> set (map skb (states self))) \<longrightarrow>
      (\<exists>qp\<in>set (states other). skb qp \<in> set (map skb (states self)) \<and>
         merge self other copy = Inl (ValueError (Duplicated_skb (skb qp))))) \<and>
   ((\<forall>qp\<in>set (states other). skb qp \<notin> set (map skb (states self))) \<longrightarrow>
      (\<exists>r. merge self other copy = Inr r \<and>
         states r = states self @ states other \<and>
         length (states r) = length (states self) + length (states other)))"
  using merge_collision [of other self copy] merge_disjoint [of other self copy]
  by (simp add: QPList_init_def)

text \<open>Witness for C5: one pair of lists that share the key \<open>(0, 0, 2)\<close>, one pair that is disjoint.\<close>

theorem merge_duplicate_keys_witness:
  "merge \<lparr>states = [mk_qp 0 1 2 3, mk_qp 0 2 4 5], is_e0sorted = True\<rparr>
         \<lparr>states = [mk_qp 1 1 2 3, mk_qp 0 2 7 7], is_e0sorted = False\<rparr> False
     = Inl (ValueError (Duplicated_skb (0, 0, 2))) \<and>
   (\<exists>r. merge \<lparr>states = [mk_qp 0 1 2 3, mk_qp 0 2 4 5], is_e0sorted = True\<rparr>
         \<lparr>states = [mk_qp 1 1 2 3], is_e0sorted = False\<rparr> True = Inr r \<and>
       states r = [mk_qp 0 1 2 3, mk_qp 0 2 4 5, mk_qp 1 1 2 3] \<and> length (states r) = 3)"
  using merge_duplicate_keys [of "\<lparr>states = [mk_qp 1 1 2 3, mk_qp 0 2 7 7], is_e0sorted = False\<rparr>"
          "\<lparr>states = [mk_qp 0 1 2 3, mk_qp 0 2 4 5], is_e0sorted = True\<rparr>" False]
        merge_duplicate_keys [of "\<lparr>states = [mk_qp 1 1 2 3], is_e0sorted = False\<rparr>"
          "\<lparr>states = [mk_qp 0 1 2 3, mk_qp 0 2 4 5], is_e0sorted = True\<rparr>" True]
  by (auto simp: skb_def mk_qp_def)


lemma sort_by_e0_states: "states (sort_by_e0 l) = sort_key e0 (states l)"
  by (simp add: sort_by_e0_def QPList_init_def)

lemma sort_by_e0_flag: "is_e0sorted (sort_by_e0 l)"
  by (simp add: sort_by_e0_def QPList_init_def)

lemma get_e0mesh_sort_by_e0:
  "get_e0mesh (sort_by_e0 l) = Inr (map e0 (sort_key e0 (states l)))"
  by (simp add: get_e0mesh_def sort_by_e0_flag sort_by_e0_states)

text \<open>
  C7: \<open>sort_by_e0\<close> returns a list of the same states whose energies \<open>e0\<close> are in
  non-decreasing order and whose flag \<open>is_e0sorted\<close> is true; \<open>get_e0mesh\<close> on it returns
  that sequence; \<open>get_e0mesh\<close> on a list whose flag is false raises \<open>ValueError\<close>.
\<close>

theorem sort_by_e0_then_e0mesh:
  "sorted (map e0 (states (sort_by_e0 self))) \<and>
   is_e0sorted (sort_by_e0 self) \<and>
   mset (states (sort_by_e0 self)) = mset (states self) \<and>
   get_e0mesh (sort_by_e0 self) = Inr (map e0 (states (sort_by_e0 self))) \<and>
   (\<not> is_e0sorted self \<longrightarrow> get_e0mesh self = Inl (ValueError Not_e0sorted))"
  by (simp add: sort_by_e0_states sort_by_e0_flag get_e0mesh_sort_by_e0 get_e0mesh_def)

text \<open>Witness for C7: an unsorted list of three states.\<close>

theorem sort_by_e0_then_e0mesh_witness:
  "\<not> is_e0sorted \<lparr>states = [mk_qp 0 1 5 6, mk_qp 0 2 4 5, mk_qp 1 1 4 3], is_e0sorted = False\<rparr> \<and>
   get_e0mesh \<lparr>states = [mk_qp 0 1 5 6, mk_qp 0 2 4 5, mk_qp 1 1 4 3], is_e0sorted = False\<rparr>
     = Inl (ValueError Not_e0sorted) \<and>
   get_e0mesh (sort_by_e0
       \<lparr>states = [mk_qp 0 1 5 6, mk_qp 0 2 4 5, mk_qp 1 1 4 3], is_e0sorted = False\<rparr>)
     = Inr [4, 4, 5]"
  using sort_by_e0_then_e0mesh
    [of "\<lparr>states = [mk_qp 0 1 5 6, mk_qp 0 2 4 5, mk_qp 1 1 4 3], is_e0sorted = False\<rparr>"]
  by (simp add: sort_by_e0_states mk_qp_def)

text \<open>
  C8: the list returned by a successful \<open>merge\<close> has its flag \<open>is_e0sorted\<close> false, whatever
  the flags of the two inputs, so \<open>get_e0mesh\<close> on it raises \<open>ValueError\<close>; after
  \<open>sort_by_e0\<close> it returns the sorted energies.
\<close>

theorem merge_result_not_e0sorted:
  assumes "merge self other copy = Inr r"
  shows "\<not> is_e0sorted r \<and> get_e0mesh r = Inl (ValueError Not_e0sorted) \<and>
         get_e0mesh (sort_by_e0 r) = Inr (map e0 (sort_key e0 (states self @ states other)))"
proof -
  from assms have r: "r = QPList_init (states self @ states other) None"
    by (auto simp: merge_def QPList_copy_states split: option.splits)
  then have "\<not> is_e0sorted r" and "states r = states self @ states other"
    by (simp_all add: QPList_init_def)
  then show ?thesis
    by (simp add: get_e0mesh_sort_by_e0) (simp add: get_e0mesh_def)
qed

text \<open>Witness for C8: both inputs have the flag true and are sorted.\<close>

theorem merge_result_not_e0sorted_witness:
  "merge \<lparr>states = [mk_qp 0 1 2 3, mk_qp 0 2 4 5], is_e0sorted = True\<rparr>
         \<lparr>states = [mk_qp 1 1 6 7], is_e0sorted = True\<rparr> False
     = Inr \<lparr>states = [mk_qp 0 1 2 3, mk_qp 0 2 4 5, mk_qp 1 1 6 7], is_e0sorted = False\<rparr> \<and>
   get_e0mesh \<lparr>states = [mk_qp 0 1 2 3, mk_qp 0 2 4 5, mk_qp 1 1 6 7], is_e0sorted = False\<rparr>
     = Inl (ValueError Not_e0sorted) \<and>
   get_e0mesh (sort_by_e0
      \<lparr>states = [mk_qp 0 1 2 3, mk_qp 0 2 4 5, mk_qp 1 1 6 7], is_e0sorted = False\<rparr>)
     = Inr [2, 4, 6]"
proof -
  have m: "merge \<lparr>states = [mk_qp 0 1 2 3, mk_qp 0 2 4 5], is_e0sorted = True\<rparr>
         \<lparr>states = [mk_qp 1 1 6 7], is_e0sorted = True\<rparr> False
     = Inr \<lparr>states = [mk_qp 0 1 2 3, mk_qp 0 2 4 5, mk_qp 1 1 6 7], is_e0sorted = False\<rparr>"
    by (simp add: merge_def QPList_init_def skb_def mk_qp_def)
  from merge_result_not_e0sorted [OF m] m show ?thesis
    by (simp add: mk_qp_def)
qed

text \<open>
  C9: when no key of \<open>other\<close> occurs in \<open>self\<close>, \<open>merge\<close> succeeds, also when \<open>self\<close> or
  \<open>other\<close> holds the same key twice: the keys of the result are distinct exactly when
  those of each input are, so the result may hold duplicated keys.
\<close>

theorem merge_checks_only_across:
  assumes "set (map skb (states other)) \<inter> set (map skb (states self)) = {}"
  shows "\<exists>r. merge self other copy = Inr r \<and>
           (distinct (map skb (states r)) \<longleftrightarrow>
              distinct (map skb (states self)) \<and> distinct (map skb (states other)))"
proof -
  from assms have "\<forall>qp\<in>set (states other). skb qp \<notin> set (map skb (states self))"
    by auto
  then have "merge self other copy = Inr (QPList_init (states self @ states other) None)"
    by (rule merge_disjoint)
  moreover from assms have
    "distinct (map skb (states self @ states other)) \<longleftrightarrow>
       distinct (map skb (states self)) \<and> distinct (map skb (states other))"
    by auto
  ultimately show ?thesis
    by (simp add: QPList_init_def)
qed

text \<open>Witness for C9: \<open>self\<close> holds the key \<open>(0, 0, 1)\<close> twice, and the merge succeeds.\<close>

theorem merge_checks_only_across_witness:
  "set (map skb (states \<lparr>states = [mk_qp 1 1 6 7], is_e0sorted = False\<rparr>)) \<inter>
   set (map skb (states \<lparr>states = [mk_qp 0 1 2 3, mk_qp 0 1 4 5], is_e0sorted = False\<rparr>)) = {} \<and>
   (\<exists>r. merge \<lparr>states = [mk_qp 0 1 2 3, mk_qp 0 1 4 5], is_e0sorted = False\<rparr>
              \<lparr>states = [mk_qp 1 1 6 7], is_e0sorted = False\<rparr> False = Inr r \<and>
        \<not> distinct (map skb (states r)))"
proof -
  have h: "set (map skb (states \<lparr>states = [mk_qp 1 1 6 7], is_e0sorted = False\<rparr>)) \<inter>
   set (map skb (states \<lparr>states = [mk_qp 0 1 2 3, mk_qp 0 1 4 5], is_e0sorted = False\<rparr>)) = {}"
    by (simp add: skb_def mk_qp_def)
  have d: "\<not> distinct (map skb (states \<lparr>states = [mk_qp 0 1 2 3, mk_qp 0 1 4 5], is_e0sorted = False\<rparr>))"
    by (simp add: skb_def mk_qp_def)
  from merge_checks_only_across [OF h, of False] d h show ?thesis
    by blast
qed

section \<open>Properties of build_scissors\<close>

subsection \<open>The two bisections on a sorted array\<close>

lemma bisect_left_loop_spec:
  assumes "sorted a" and "lo \<le> hi" and "hi \<le> length a"
    and "\<forall>i<lo. a ! i < x" and "\<forall>i. hi \<le> i \<and> i < length a \<longrightarrow> x \<le> a ! i"
  shows "lo \<le> bisect_left_loop a x lo hi \<and> bisect_left_loop a x lo hi \<le> hi \<and>
         (\<forall>i<bisect_left_loop a x lo hi. a ! i < x) \<and>
         (\<forall>i. bisect_left_loop a x lo hi \<le> i \<and> i < length a \<longrightarrow> x \<le> a ! i)"
  using assms
proof (induction a x lo hi rule: bisect_left_loop.induct)
  case (1 a x lo hi)
  show ?case
  proof (cases "lo < hi")
    case False
    with "1.prems" show ?thesis by (subst (1 2 3 4) bisect_left_loop.simps) simp
  next
    case True
    define mid where "mid = (lo + hi) div 2"
    from True have mid: "lo \<le> mid" "mid < hi" by (simp_all add: mid_def)
    show ?thesis
    proof (cases "a ! mid < x")
      case lt: True
      have below: "\<forall>i<mid + 1. a ! i < x"
      proof (intro allI impI)
        fix i assume "i < mid + 1"
        then have "i \<le> mid" by simp
        with \<open>sorted a\<close> mid "1.prems"(3) have "a ! i \<le> a ! mid"
          by (simp add: sorted_nth_mono)
        with lt show "a ! i < x" by simp
      qed
      from mid have "mid + 1 \<le> hi" by simp
      from "1.IH"(1) [OF True mid_def lt \<open>sorted a\<close> this "1.prems"(3) below "1.prems"(5)]
      show ?thesis using True lt mid
        by (subst (1 2 3 4) bisect_left_loop.simps) (simp add: mid_def Let_def)
    next
      case ge: False
      have above: "\<forall>i. mid \<le> i \<and> i < length a \<longrightarrow> x \<le> a ! i"
      proof (intro allI impI)
        fix i assume "mid \<le> i \<and> i < length a"
        with \<open>sorted a\<close> have "a ! mid \<le> a ! i"
          by (simp add: sorted_nth_mono)
        with ge show "x \<le> a ! i" by simp
      qed
      from mid "1.prems"(3) have "mid \<le> length a" by simp
      from "1.IH"(2) [OF True mid_def ge \<open>sorted a\<close> mid(1) this "1.prems"(4) above]
      show ?thesis using True ge mid
        by (subst (1 2 3 4) bisect_left_loop.simps) (simp add: mid_def Let_def)
    qed
  qed
qed

lemma bisect_right_loop_spec:
  assumes "sorted a" and "lo \<le> hi" and "hi \<le> length a"
    and "\<forall>i<lo. a ! i \<le> x" and "\<forall>i. hi \<le> i \<and> i < length a \<longrightarrow> x < a ! i"
  shows "lo \<le> bisect_right_loop a x lo hi \<and> bisect_right_loop a x lo hi \<le> hi \<and>
         (\<forall>i<bisect_right_loop a x lo hi. a ! i \<le> x) \<and>
         (\<forall>i. bisect_right_loop a x lo hi \<le> i \<and> i < length a \<longrightarrow> x < a ! i)"
  using assms
proof (induction a x lo hi rule: bisect_right_loop.induct)
  case (1 a x lo hi)
  show ?case
  proof (cases "lo < hi")
    case False
    with "1.prems" show ?thesis by (subst (1 2 3 4) bisect_right_loop.simps) simp
  next
    case True
    define mid where "mid = (lo + hi) div 2"
    from True have mid: "lo \<le> mid" "mid < hi" by (simp_all add: mid_def)
    show ?thesis
    proof (cases "x < a ! mid")
      case lt: True
      have above: "\<forall>i. mid \<le> i \<and> i < length a \<longrightarrow> x < a ! i"
      proof (intro allI impI)
        fix i assume "mid \<le> i \<and> i < length a"
        with \<open>sorted a\<close> have "a ! mid \<le> a ! i"
          by (simp add: sorted_nth_mono)
        with lt show "x < a ! i" by simp
      qed
      from mid "1.prems"(3) have "mid \<le> length a" by simp
      from "1.IH"(1) [OF True mid_def lt \<open>sorted a\<close> mid(1) this "1.prems"(4) above]
      show ?thesis using True lt mid
        by (subst (1 2 3 4) bisect_right_loop.simps) (simp add: mid_def Let_def)
    next
      case ge: False
      have below: "\<forall>i<mid + 1. a ! i \<le> x"
      proof (intro allI impI)
        fix i assume "i < mid + 1"
        then have "i \<le> mid" by simp
        with \<open>sorted a\<close> mid "1.prems"(3) have "a ! i \<le> a ! mid"
          by (simp add: sorted_nth_mono)
        with ge show "a ! i \<le> x" by simp
      qed
      from mid have "mid + 1 \<le> hi" by simp
      from "1.IH"(2) [OF True mid_def ge \<open>sorted a\<close> this "1.prems"(3) below "1.prems"(5)]
      show ?thesis using True ge mid
        by (subst (1 2 3 4) bisect_right_loop.simps) (simp add: mid_def Let_def)
    qed
  qed
qed

lemma bisect_left_spec:
  assumes "sorted a"
  shows "bisect_left a x \<le> length a \<and> (\<forall>i<bisect_left a x. a ! i < x) \<and>
         (\<forall>i. bisect_left a x \<le> i \<and> i < length a \<longrightarrow> x \<le> a ! i)"
  using bisect_left_loop_spec [OF assms, of 0 "length a" x] by (simp add: bisect_left_def)

lemma bisect_right_spec:
  assumes "sorted a"
  shows "bisect_right a x \<le> length a \<and> (\<forall>i<bisect_right a x. a ! i \<le> x) \<and>
         (\<forall>i. bisect_right a x \<le> i \<and> i < length a \<longrightarrow> x < a ! i)"
  using bisect_right_loop_spec [OF assms, of 0 "length a" x] by (simp add: bisect_right_def)

lemma find_ge_Inr:
  assumes "sorted a" and "(find_ge a x :: 'k exn + nat) = Inr i"
  shows "i < length a \<and> x \<le> a ! i \<and> (\<forall>j<i. a ! j < x)"
proof -
  from assms(2) have i: "i = bisect_left a x" "i \<noteq> length a"
    by (auto simp: find_ge_def Let_def split: if_splits)
  with bisect_left_spec [OF assms(1), of x] show ?thesis
    by (simp add: le_neq_implies_less)
qed

lemma find_le_Inr:
  assumes "sorted a" and "(find_le a x :: 'k exn + nat) = Inr i"
  shows "i < length a \<and> a ! i \<le> x \<and> (\<forall>j. i < j \<and> j < length a \<longrightarrow> x < a ! j)"
proof -
  from assms(2) have i: "Suc i = bisect_right a x"
    by (auto simp: find_le_def Let_def split: if_splits)
  with bisect_right_spec [OF assms(1), of x] show ?thesis
    by (metis Suc_le_eq lessI)
qed

lemma in_set_dropE:
  assumes "x \<in> set (drop n xs)"
  shows "\<exists>i. n \<le> i \<and> i < length xs \<and> x = xs ! i"
proof -
  from assms obtain j where "j < length (drop n xs)" "drop n xs ! j = x"
    by (auto simp: in_set_conv_nth)
  then have "n \<le> n + j \<and> n + j < length xs \<and> x = xs ! (n + j)"
    by auto
  then show ?thesis by blast
qed

lemma filter_slice:
  assumes "r2 \<le> length a"
    and lo: "\<forall>i<r1. i < length a \<longrightarrow> \<not> P (a ! i)"
    and mi: "\<forall>i. r1 \<le> i \<and> i < r2 \<longrightarrow> P (a ! i)"
    and hi: "\<forall>i. r2 \<le> i \<and> i < length a \<longrightarrow> \<not> P (a ! i)"
  shows "filter P a = slice a r1 r2"
proof -
  have 1: "filter P (drop r2 a) = []"
    using hi by (auto simp: filter_empty_conv dest!: in_set_dropE)
  have 2: "filter P (take r1 (take r2 a)) = []"
    using lo by (auto simp: filter_empty_conv in_set_conv_nth)
  have 3: "filter P (drop r1 (take r2 a)) = drop r1 (take r2 a)"
    using mi by (auto simp: filter_id_conv dest!: in_set_dropE)
  have "filter P a = filter P (take r2 a @ drop r2 a)"
    by simp
  also have "\<dots> = filter P (take r2 a)"
    using 1 by (simp del: append_take_drop_id)
  also have "\<dots> = filter P (take r1 (take r2 a)) @ filter P (drop r1 (take r2 a))"
    by (metis append_take_drop_id filter_append)
  also have "\<dots> = drop r1 (take r2 a)"
    by (simp only: 2 3 append_Nil)
  finally show ?thesis
    by (simp add: slice_def)
qed

lemma slice_map: "slice (map f a) i j = map f (slice a i j)"
  by (simp add: slice_def drop_map take_map)

text \<open>On a sorted array, the two searches bracket the samples of a domain.\<close>

lemma find_ge_find_le_slice:
  assumes "sorted (map key a)"
    and "find_ge (map key a) low = Inr start"
    and "find_le (map key a) high = Inr stop"
  shows "slice a start (Suc stop) = filter (\<lambda>q. low \<le> key q \<and> key q \<le> high) a"
proof -
  let ?m = "map key a"
  from assms(2) have start: "start = bisect_left ?m low"
    by (auto simp: find_ge_def Let_def split: if_splits)
  from assms(3) have stop: "Suc stop = bisect_right ?m high"
    by (auto simp: find_le_def Let_def split: if_splits)
  note L = bisect_left_spec [OF assms(1), of low, folded start]
  note R = bisect_right_spec [OF assms(1), of high, folded stop]
  have "filter (\<lambda>q. low \<le> key q \<and> key q \<le> high) a = slice a start (Suc stop)"
  proof (rule filter_slice)
    show "Suc stop \<le> length a" using R by simp
    show "\<forall>i<start. i < length a \<longrightarrow> \<not> (low \<le> key (a ! i) \<and> key (a ! i) \<le> high)"
      using L by (auto simp: not_le)
    show "\<forall>i. start \<le> i \<and> i < Suc stop \<longrightarrow> low \<le> key (a ! i) \<and> key (a ! i) \<le> high"
      using L R by (metis length_map nth_map order_less_le_trans)
    show "\<forall>i. Suc stop \<le> i \<and> i < length a \<longrightarrow> \<not> (low \<le> key (a ! i) \<and> key (a ! i) \<le> high)"
      using R by (auto simp: not_le)
  qed
  then show ?thesis by simp
qed

subsection \<open>The loop of the fits\<close>

lemma fit_domains_Inr:
  fixes spline :: "real list \<Rightarrow> complex list \<Rightarrow> int list option \<Rightarrow> nat \<Rightarrow> 'k exn + 'f"
  assumes "fit_domains spline residual e0mesh qpcorrs k ndom doms fl rs = Inr (fl', rs')"
  shows "length fl' = length fl + length doms \<and> length rs' = length rs + length doms \<and>
         take (length fl) fl' = fl \<and> take (length rs) rs' = rs \<and>
         (\<forall>i<length doms. \<exists>start stop w.
            (find_ge e0mesh (fst (doms ! i)) :: 'k exn + nat) = Inr start \<and>
            (find_le e0mesh (snd (doms ! i)) :: 'k exn + nat) = Inr stop \<and>
            (weights (Suc (ndom + i)) (length (slice e0mesh start (Suc stop)))
               :: 'k exn + int list option) = Inr w \<and>
            spline (slice e0mesh start (Suc stop)) (slice qpcorrs start (Suc stop)) w k
              = Inr (fl' ! (length fl + i)) \<and>
            rs' ! (length rs + i) = residual (fl' ! (length fl + i)))"
  using assms
proof (induction doms arbitrary: ndom fl rs)
  case Nil
  then show ?case by simp
next
  case (Cons d doms)
  obtain low high where d: "d = (low, high)" by (cases d)
  from Cons.prems d obtain start stop w f where
    s1: "(find_ge e0mesh low :: 'k exn + nat) = Inr start" and
    s2: "(find_le e0mesh high :: 'k exn + nat) = Inr stop" and
    s3: "(weights (Suc ndom) (length (slice e0mesh start (Suc stop)))
            :: 'k exn + int list option) = Inr w" and
    s4: "spline (slice e0mesh start (Suc stop)) (slice qpcorrs start (Suc stop)) w k = Inr f" and
    rest: "fit_domains spline residual e0mesh qpcorrs k (Suc ndom) doms (fl @ [f])
             (rs @ [residual f]) = Inr (fl', rs')"
    by (auto simp: Let_def split: sum.splits)
  note IH = Cons.IH [OF rest]
  from IH have len: "length fl' = length fl + length (d # doms)"
    "length rs' = length rs + length (d # doms)" by simp_all
  from IH have tk: "take (Suc (length fl)) fl' = fl @ [f]"
    "take (Suc (length rs)) rs' = rs @ [residual f]" by simp_all
  have tf: "take (length fl) fl' = fl"
  proof -
    have "take (length fl) fl' = take (length fl) (take (Suc (length fl)) fl')"
      by (simp add: min_def)
    also have "\<dots> = take (length fl) (fl @ [f])" by (simp only: tk)
    finally show ?thesis by simp
  qed
  have tr: "take (length rs) rs' = rs"
  proof -
    have "take (length rs) rs' = take (length rs) (take (Suc (length rs)) rs')"
      by (simp add: min_def)
    also have "\<dots> = take (length rs) (rs @ [residual f])" by (simp only: tk)
    finally show ?thesis by simp
  qed
  have nf: "fl' ! length fl = f"
  proof -
    have "fl' ! length fl = take (Suc (length fl)) fl' ! length fl" by simp
    also have "\<dots> = (fl @ [f]) ! length fl" by (simp only: tk)
    finally show ?thesis by simp
  qed
  have nr: "rs' ! length rs = residual f"
  proof -
    have "rs' ! length rs = take (Suc (length rs)) rs' ! length rs" by simp
    also have "\<dots> = (rs @ [residual f]) ! length rs" by (simp only: tk)
    finally show ?thesis by simp
  qed
  have each: "\<exists>start stop w.
            (find_ge e0mesh (fst ((d # doms) ! i)) :: 'k exn + nat) = Inr start \<and>
            (find_le e0mesh (snd ((d # doms) ! i)) :: 'k exn + nat) = Inr stop \<and>
            (weights (Suc (ndom + i)) (length (slice e0mesh start (Suc stop)))
               :: 'k exn + int list option) = Inr w \<and>
            spline (slice e0mesh start (Suc stop)) (slice qpcorrs start (Suc stop)) w k
              = Inr (fl' ! (length fl + i)) \<and>
            rs' ! (length rs + i) = residual (fl' ! (length fl + i))"
    if "i < length (d # doms)" for i
  proof (cases i)
    case 0
    with s1 s2 s3 s4 nf nr d show ?thesis by simp
  next
    case (Suc j)
    with that have "j < length doms" by simp
    with IH Suc show ?thesis by simp
  qed
  from len tf tr each show ?case by blast
qed

lemma weights_one:
  assumes "(weights (Suc 0) n :: 'k exn + int list option) = Inr w"
  shows "n \<noteq> 0 \<and> w = Some (replicate (n - 1) 1 @ [1000])"
proof (cases n)
  case 0
  with assms show ?thesis by (simp add: weights_def)
next
  case (Suc m)
  have "(replicate (Suc m) (1::int))[m := 1000] = (replicate m 1 @ [1])[m := 1000]"
    by (simp only: replicate_append_same replicate_Suc)
  also have "\<dots> = replicate m 1 @ [1000]"
    by (simp add: list_update_append)
  finally show ?thesis using assms Suc
    by (auto simp: weights_def Let_def simp del: replicate_Suc)
qed

lemma weights_two:
  assumes "(weights (Suc (Suc 0)) n :: 'k exn + int list option) = Inr w"
  shows "n \<noteq> 0 \<and> w = Some (1000 # replicate (n - 1) 1)"
  using assms by (cases n) (auto simp: weights_def Let_def)

lemma weights_other:
  assumes "2 < ndom"
  shows "(weights ndom n :: 'k exn + int list option) = Inr None"
  using assms by (simp add: weights_def Let_def)

lemma build_scissors_Inr:
  fixes spline :: "real list \<Rightarrow> complex list \<Rightarrow> int list option \<Rightarrow> nat \<Rightarrow> 'k exn + 'f"
    and self :: "'k QPList"
  assumes "build_scissors spline residual self doms bounds k = Inr sc"
  shows "doms \<noteq> [] \<and> sc_domains sc = doms \<and> sc_bounds sc = bounds \<and>
         (check_domains (map e0 (sort_key e0 (states self))) (ravel doms) :: 'k exn + unit) = Inr () \<and>
         fit_domains spline residual (map e0 (sort_key e0 (states self)))
           (map qpeme0 (sort_key e0 (states self))) k (if length doms = 2 then 0 else 99) doms [] []
           = Inr (sc_func_list sc, sc_residues sc)"
  using assms
  by (auto simp: build_scissors_def get_e0mesh_sort_by_e0 get_qpeme0_def get_field_def
        sort_by_e0_states Let_def split: sum.splits if_splits)

lemma build_scissors_fit:
  fixes spline :: "real list \<Rightarrow> complex list \<Rightarrow> int list option \<Rightarrow> nat \<Rightarrow> 'k exn + 'f"
    and self :: "'k QPList"
  assumes ok: "build_scissors spline residual self doms bounds k = Inr sc"
    and i: "i < length doms" and d: "doms ! i = (low, high)"
  shows "\<exists>start stop w.
     (find_ge (map e0 (sort_key e0 (states self))) low :: 'k exn + nat) = Inr start \<and>
     (find_le (map e0 (sort_key e0 (states self))) high :: 'k exn + nat) = Inr stop \<and>
     slice (sort_key e0 (states self)) start (Suc stop)
       = filter (\<lambda>qp. low \<le> e0 qp \<and> e0 qp \<le> high) (sort_key e0 (states self)) \<and>
     (weights (Suc ((if length doms = 2 then 0 else 99) + i))
        (length (filter (\<lambda>qp. low \<le> e0 qp \<and> e0 qp \<le> high) (sort_key e0 (states self))))
        :: 'k exn + int list option) = Inr w \<and>
     spline (map e0 (filter (\<lambda>qp. low \<le> e0 qp \<and> e0 qp \<le> high) (sort_key e0 (states self))))
            (map qpeme0 (filter (\<lambda>qp. low \<le> e0 qp \<and> e0 qp \<le> high) (sort_key e0 (states self))))
            w k = Inr (sc_func_list sc ! i) \<and>
     sc_residues sc ! i = residual (sc_func_list sc ! i)"
proof -
  let ?S = "sort_key e0 (states self)"
  let ?D = "filter (\<lambda>qp. low \<le> e0 qp \<and> e0 qp \<le> high) ?S"
  note B = build_scissors_Inr [OF ok]
  from B have fit: "fit_domains spline residual (map e0 ?S) (map qpeme0 ?S) k
      (if length doms = 2 then 0 else 99) doms [] [] = Inr (sc_func_list sc, sc_residues sc)"
    by simp
  from fit_domains_Inr [OF fit] i d obtain start stop w where
    s1: "(find_ge (map e0 ?S) low :: 'k exn + nat) = Inr start" and
    s2: "(find_le (map e0 ?S) high :: 'k exn + nat) = Inr stop" and
    s3: "(weights (Suc ((if length doms = 2 then 0 else 99) + i))
            (length (slice (map e0 ?S) start (Suc stop))) :: 'k exn + int list option) = Inr w" and
    s4: "spline (slice (map e0 ?S) start (Suc stop)) (slice (map qpeme0 ?S) start (Suc stop)) w k
           = Inr (sc_func_list sc ! i)" and
    s5: "sc_residues sc ! i = residual (sc_func_list sc ! i)"
    by fastforce
  have "sorted (map e0 ?S)" by simp
  from find_ge_find_le_slice [OF this s1 s2] have sl: "slice ?S start (Suc stop) = ?D"
    by simp
  from s3 s4 have "(weights (Suc ((if length doms = 2 then 0 else 99) + i)) (length ?D)
       :: 'k exn + int list option) = Inr w"
    and "spline (map e0 ?D) (map qpeme0 ?D) w k = Inr (sc_func_list sc ! i)"
    by (simp_all add: slice_map sl)
  with s1 s2 sl s5 show ?thesis by blast
qed

lemma build_scissors_two_bands:
  "build_scissors record_fit no_residual two_bands [(0, 4), (5, 10)] None 3 = Inr two_bands_scissors"
  by code_simp

text \<open>
  C1 (as amended): when \<open>build_scissors\<close> returns, there is one fit per domain, on the
  samples of the domain.  With exactly two domains, neither domain is empty, the first fit
  has weight 1000 on the last sample of the first domain, the second fit has weight 1000 on
  the first sample of the second domain, and every other weight is 1; with any other number
  of domains every fit is called with \<open>w = None\<close>, the uniform weights.
\<close>

theorem build_scissors_anchoring_weights:
  fixes spline :: "real list \<Rightarrow> complex list \<Rightarrow> int list option \<Rightarrow> nat \<Rightarrow> 'k exn + 'f"
    and self :: "'k QPList"
  assumes "build_scissors spline residual self doms bounds k = Inr sc"
  shows "length (sc_func_list sc) = length doms \<and>
    (\<forall>i<length doms.
       let D = filter (\<lambda>qp. fst (doms ! i) \<le> e0 qp \<and> e0 qp \<le> snd (doms ! i))
                 (states (sort_by_e0 self));
           n = length D;
           w = (if length doms = 2
                then (if i = 0 then Some (replicate (n - 1) 1 @ [1000])
                      else Some (1000 # replicate (n - 1) 1))
                else None)
       in (length doms = 2 \<longrightarrow> D \<noteq> []) \<and>
          spline (map e0 D) (map qpeme0 D) w k = Inr (sc_func_list sc ! i))"
proof -
  let ?S = "sort_key e0 (states self)"
  from build_scissors_Inr [OF assms] have fit: "fit_domains spline residual (map e0 ?S)
      (map qpeme0 ?S) k (if length doms = 2 then 0 else 99) doms [] []
      = Inr (sc_func_list sc, sc_residues sc)"
    by simp
  from fit_domains_Inr [OF fit] have len: "length (sc_func_list sc) = length doms"
    by simp
  have each: "(length doms = 2 \<longrightarrow> D \<noteq> []) \<and>
      spline (map e0 D) (map qpeme0 D)
        (if length doms = 2
         then (if i = 0 then Some (replicate (length D - 1) 1 @ [1000])
               else Some (1000 # replicate (length D - 1) 1))
         else None) k = Inr (sc_func_list sc ! i)"
    if i: "i < length doms"
      and D: "D = filter (\<lambda>qp. fst (doms ! i) \<le> e0 qp \<and> e0 qp \<le> snd (doms ! i)) ?S"
    for i D
  proof -
    have d: "doms ! i = (fst (doms ! i), snd (doms ! i))" by simp
    from build_scissors_fit [OF assms i d] D obtain w where
      w: "(weights (Suc ((if length doms = 2 then 0 else 99) + i)) (length D)
            :: 'k exn + int list option) = Inr w" and
      s: "spline (map e0 D) (map qpeme0 D) w k = Inr (sc_func_list sc ! i)"
      by blast
    show ?thesis
    proof (cases "length doms = 2")
      case True
      with i have "i = 0 \<or> i = 1" by auto
      then show ?thesis
      proof
        assume i0: "i = 0"
        with w True have "(weights (Suc 0) (length D) :: 'k exn + int list option) = Inr w"
          by simp
        from weights_one [OF this] True i0 s show ?thesis by simp
      next
        assume i1: "i = 1"
        with w True have "(weights (Suc (Suc 0)) (length D) :: 'k exn + int list option) = Inr w"
          by simp
        from weights_two [OF this] True i1 s show ?thesis by simp
      qed
    next
      case False
      have "(weights (Suc (99 + i)) (length D) :: 'k exn + int list option) = Inr None"
        by (rule weights_other) simp
      with w False s show ?thesis by simp
    qed
  qed
  with len show ?thesis
    by (simp add: sort_by_e0_states Let_def)
qed

text \<open>Witness for C1: two domains of four samples each.\<close>

theorem build_scissors_anchoring_weights_witness:
  "build_scissors record_fit no_residual two_bands [(0, 4), (5, 10)] None 3 = Inr two_bands_scissors \<and>
   record_fit [1, 2, 3, 3] [1, 2, 1, 4] (Some [1, 1, 1, 1000]) 3 = Inr (sc_func_list two_bands_scissors ! 0) \<and>
   record_fit [6, 7, 8, 9] [2, 3, 3, 2] (Some [1000, 1, 1, 1]) 3 = Inr (sc_func_list two_bands_scissors ! 1)"
proof -
  have S: "states (sort_by_e0 two_bands) =
      [mk_qp 0 0 1 2, mk_qp 0 1 2 4, mk_qp 1 1 3 4, mk_qp 1 0 3 7, mk_qp 0 2 6 8, mk_qp 1 2 7 10, mk_qp 2 2 8 11, mk_qp 2 3 9 11]"
    by (simp add: sort_by_e0_states two_bands_def mk_qp_def)
  note T = build_scissors_anchoring_weights [OF build_scissors_two_bands, THEN conjunct2, rule_format]
  from T [of 0]
  have "record_fit [1, 2, 3, 3] [1, 2, 1, 4] (Some [1, 1, 1, 1000]) 3 = Inr (sc_func_list two_bands_scissors ! 0)"
    by (simp add: S Let_def mk_qp_def qpeme0_def)
  moreover from T [of 1]
  have "record_fit [6, 7, 8, 9] [2, 3, 3, 2] (Some [1000, 1, 1, 1]) 3 = Inr (sc_func_list two_bands_scissors ! 1)"
    by (simp add: S Let_def mk_qp_def qpeme0_def)
  ultimately show ?thesis using build_scissors_two_bands by simp
qed

text \<open>
  Counterexample for C1 as stated: the weights of the two fits are \<open>[1, 1, 1, 1000]\<close> and
  \<open>[1000, 1, 1, 1]\<close>, not 1000 on the first sample of the first domain and on the last
  sample of the second.
\<close>

theorem build_scissors_anchoring_weights_counterexample:
  "map_sum id fit_weights
     (build_scissors record_fit no_residual two_bands [(0, 4), (5, 10)] (None :: unit option) 3)
     = Inr [Some [1, 1, 1, 1000], Some [1000, 1, 1, 1]] \<and>
   map_sum id fit_weights
     (build_scissors record_fit no_residual two_bands [(0, 4), (5, 10)] (None :: unit option) 3)
     \<noteq> Inr [Some [1000, 1, 1, 1], Some [1, 1, 1, 1000]]"
  by (simp add: build_scissors_two_bands two_bands_scissors_def fit_weights_def)

text \<open>
  C2 (as amended): when \<open>build_scissors\<close> returns, the samples fitted for a domain
  \<open>[low, high]\<close> are the contiguous run \<open>start..stop\<close> of the samples sorted by \<open>e0\<close>,
  which are exactly the samples with \<open>low \<le> e0 \<le> high\<close>; \<open>start\<close>, found by \<open>find_ge\<close>
  (the insertion point from the left), is the index of the least sample \<open>\<ge> low\<close>, and
  \<open>stop\<close>, found by \<open>find_le\<close>, is the index of the greatest sample \<open>\<le> high\<close>.
\<close>

theorem build_scissors_domain_run:
  fixes spline :: "real list \<Rightarrow> complex list \<Rightarrow> int list option \<Rightarrow> nat \<Rightarrow> 'k exn + 'f"
    and self :: "'k QPList"
  assumes "build_scissors spline residual self doms bounds k = Inr sc"
    and "i < length doms" and "doms ! i = (low, high)"
  shows "\<exists>start stop w.
     (find_ge (map e0 (states (sort_by_e0 self))) low :: 'k exn + nat) = Inr start \<and>
     (find_le (map e0 (states (sort_by_e0 self))) high :: 'k exn + nat) = Inr stop \<and>
     start < length (states self) \<and> low \<le> e0 (states (sort_by_e0 self) ! start) \<and>
     (\<forall>j<start. e0 (states (sort_by_e0 self) ! j) < low) \<and>
     stop < length (states self) \<and> e0 (states (sort_by_e0 self) ! stop) \<le> high \<and>
     (\<forall>j. stop < j \<and> j < length (states self) \<longrightarrow> high < e0 (states (sort_by_e0 self) ! j)) \<and>
     slice (states (sort_by_e0 self)) start (stop + 1)
       = filter (\<lambda>qp. low \<le> e0 qp \<and> e0 qp \<le> high) (states (sort_by_e0 self)) \<and>
     spline (map e0 (slice (states (sort_by_e0 self)) start (stop + 1)))
            (map qpeme0 (slice (states (sort_by_e0 self)) start (stop + 1))) w k
       = Inr (sc_func_list sc ! i)"
proof -
  let ?S = "sort_key e0 (states self)"
  from build_scissors_fit [OF assms] obtain start stop w where
    s1: "(find_ge (map e0 ?S) low :: 'k exn + nat) = Inr start" and
    s2: "(find_le (map e0 ?S) high :: 'k exn + nat) = Inr stop" and
    sl: "slice ?S start (Suc stop) = filter (\<lambda>qp. low \<le> e0 qp \<and> e0 qp \<le> high) ?S" and
    s4: "spline (map e0 (filter (\<lambda>qp. low \<le> e0 qp \<and> e0 qp \<le> high) ?S))
            (map qpeme0 (filter (\<lambda>qp. low \<le> e0 qp \<and> e0 qp \<le> high) ?S)) w k
          = Inr (sc_func_list sc ! i)"
    by blast
  have srt: "sorted (map e0 ?S)" by simp
  from find_ge_Inr [OF srt s1] have
    a: "start < length (states self)" "low \<le> e0 (?S ! start)" "\<forall>j<start. e0 (?S ! j) < low"
    by (auto simp: nth_map [symmetric] simp del: nth_map)
  from find_le_Inr [OF srt s2] have
    b: "stop < length (states self)" "e0 (?S ! stop) \<le> high"
       "\<forall>j. stop < j \<and> j < length (states self) \<longrightarrow> high < e0 (?S ! j)"
    by (auto simp: nth_map [symmetric] simp del: nth_map)
  from s1 s2 sl s4 a b show ?thesis
    by (simp add: sort_by_e0_states) blast
qed

text \<open>Witness for C2: the second domain of the same input.\<close>

theorem build_scissors_domain_run_witness:
  "build_scissors record_fit no_residual two_bands [(0, 4), (5, 10)] None 3 = Inr two_bands_scissors \<and>
   (\<exists>start stop w.
     (find_ge [1, 2, 3, 3, 6, 7, 8, 9] 5 :: nat exn + nat) = Inr start \<and>
     (find_le [1, 2, 3, 3, 6, 7, 8, 9] 10 :: nat exn + nat) = Inr stop \<and>
     slice (states (sort_by_e0 two_bands)) start (stop + 1) = [mk_qp 0 2 6 8, mk_qp 1 2 7 10, mk_qp 2 2 8 11, mk_qp 2 3 9 11] \<and>
     record_fit (map e0 (slice (states (sort_by_e0 two_bands)) start (stop + 1)))
            (map qpeme0 (slice (states (sort_by_e0 two_bands)) start (stop + 1))) w 3
       = Inr (sc_func_list two_bands_scissors ! 1))"
proof -
  have S: "states (sort_by_e0 two_bands) =
      [mk_qp 0 0 1 2, mk_qp 0 1 2 4, mk_qp 1 1 3 4, mk_qp 1 0 3 7, mk_qp 0 2 6 8, mk_qp 1 2 7 10, mk_qp 2 2 8 11, mk_qp 2 3 9 11]"
    by (simp add: sort_by_e0_states two_bands_def mk_qp_def)
  have i: "1 < length [(0::real, 4::real), (5, 10)]" and d: "[(0::real, 4::real), (5, 10)] ! 1 = (5, 10)"
    by simp_all
  have m: "map e0 (states (sort_by_e0 two_bands)) = [1, 2, 3, 3, 6, 7, 8, 9]"
    by (simp add: S mk_qp_def)
  have f: "filter (\<lambda>qp. 5 \<le> e0 qp \<and> e0 qp \<le> 10) (states (sort_by_e0 two_bands))
             = [mk_qp 0 2 6 8, mk_qp 1 2 7 10, mk_qp 2 2 8 11, mk_qp 2 3 9 11]"
    by (simp add: S mk_qp_def)
  from build_scissors_domain_run [OF build_scissors_two_bands i d] build_scissors_two_bands
  show ?thesis
    unfolding m f by blast
qed

text \<open>
  Counterexample for C2 as stated: for the domain \<open>[5, 10]\<close> the start index is 4, where
  the sample is 6, which is not a sample \<open>\<le> low\<close>; for the domain \<open>[0, 4]\<close> the end index
  is 3, where the sample is 3, which is not a sample \<open>\<ge> high\<close>.
\<close>

theorem build_scissors_domain_run_counterexample:
  "build_scissors record_fit no_residual two_bands [(0, 4), (5, 10)] None 3 = Inr two_bands_scissors \<and>
   get_e0mesh (sort_by_e0 two_bands) = Inr [1, 2, 3, 3, 6, 7, 8, 9] \<and>
   (find_ge [1, 2, 3, 3, 6, 7, 8, 9] 5 :: nat exn + nat) = Inr 4 \<and> \<not> [1, 2, 3, 3, 6, 7, 8, 9 :: real] ! 4 \<le> 5 \<and>
   (find_le [1, 2, 3, 3, 6, 7, 8, 9] 4 :: nat exn + nat) = Inr 3 \<and> \<not> 4 \<le> [1, 2, 3, 3, 6, 7, 8, 9 :: real] ! 3"
proof -
  have "get_e0mesh (sort_by_e0 two_bands) = Inr [1, 2, 3, 3, 6, 7, 8, 9]"
    by (simp add: get_e0mesh_sort_by_e0 two_bands_def mk_qp_def)
  moreover have "(find_ge [1, 2, 3, 3, 6, 7, 8, 9] 5 :: nat exn + nat) = Inr 4"
    by code_simp
  moreover have "(find_le [1, 2, 3, 3, 6, 7, 8, 9] 4 :: nat exn + nat) = Inr 3"
    by code_simp
  ultimately show ?thesis
    using build_scissors_two_bands by simp
qed

subsection \<open>The check of the domains\<close>

lemma sorted_hd_Min:
  assumes "sorted ys" and "ys \<noteq> []"
  shows "hd ys = Min (set ys)"
  using assms by (cases ys) (auto intro!: Min_eqI [symmetric])

lemma sorted_last_Max:
  assumes "sorted ys" and "ys \<noteq> []"
  shows "last ys = Max (set ys)"
proof -
  from assms(2) obtain zs z where ys: "ys = zs @ [z]"
    by (cases ys rule: rev_cases) auto
  with assms(1) have "\<forall>x\<in>set zs. x \<le> z"
    by (simp add: sorted_append)
  then have "Max (set ys) = z"
    unfolding ys by (intro Max_eqI) auto
  with ys show ?thesis by simp
qed

lemma check_loop_append:
  "check_loop e0mesh dflat (xs @ ys) =
     (case check_loop e0mesh dflat xs of Inl err \<Rightarrow> Inl err | Inr u \<Rightarrow> check_loop e0mesh dflat ys)"
  by (induction xs) (auto split: sum.splits)

lemma check_boundary_inner:
  assumes "e0mesh \<noteq> []" and "Suc idx < length dflat"
  shows "(check_boundary e0mesh dflat idx :: 'k exn + unit) =
     (if idx = 0 \<and> dflat ! 0 > hd e0mesh then Inl (ValueError (Min_not_included (hd e0mesh)))
      else if dflat ! idx > dflat ! Suc idx then Inl (ValueError Not_increasing)
      else Inr ())"
  using assms by (auto simp: check_boundary_def Let_def)

lemma check_boundary_last:
  assumes "e0mesh \<noteq> []" and "length dflat = Suc (Suc m)"
  shows "(check_boundary e0mesh dflat (Suc m) :: 'k exn + unit) =
     (if dflat ! Suc m < last e0mesh then Inl (ValueError (Max_not_included (last e0mesh)))
      else if dflat ! Suc m < dflat ! m then Inl (ValueError Not_increasing)
      else Inr ())"
  using assms by (auto simp: check_boundary_def Let_def)

lemma check_loop_prefix:
  assumes "e0mesh \<noteq> []" and "m < length dflat"
  shows "(check_loop e0mesh dflat [0..<m] :: 'k exn + unit) =
     (if 0 < m \<and> dflat ! 0 > hd e0mesh then Inl (ValueError (Min_not_included (hd e0mesh)))
      else if \<exists>i<m. dflat ! i > dflat ! Suc i then Inl (ValueError Not_increasing)
      else Inr ())"
  using assms(2)
proof (induction m)
  case 0
  then show ?case by simp
next
  case (Suc m)
  then have IH: "(check_loop e0mesh dflat [0..<m] :: 'k exn + unit) =
     (if 0 < m \<and> dflat ! 0 > hd e0mesh then Inl (ValueError (Min_not_included (hd e0mesh)))
      else if \<exists>i<m. dflat ! i > dflat ! Suc i then Inl (ValueError Not_increasing)
      else Inr ())" by simp
  from Suc.prems have b: "(check_boundary e0mesh dflat m :: 'k exn + unit) =
     (if m = 0 \<and> dflat ! 0 > hd e0mesh then Inl (ValueError (Min_not_included (hd e0mesh)))
      else if dflat ! m > dflat ! Suc m then Inl (ValueError Not_increasing)
      else Inr ())"
    by (intro check_boundary_inner assms(1)) simp
  show ?case
    by (simp only: upt_Suc_append [OF le0] check_loop_append IH b check_loop.simps)
       (auto simp: less_Suc_eq)
qed

lemma length_ravel: "length (ravel doms) = 2 * length doms"
  by (induction doms) (auto simp: ravel_def)

lemma check_domains_cases:
  assumes "e0mesh \<noteq> []" and "doms \<noteq> []"
  shows "(check_domains e0mesh (ravel doms) :: 'k exn + unit) =
     (if hd (ravel doms) > hd e0mesh then Inl (ValueError (Min_not_included (hd e0mesh)))
      else if \<exists>i. Suc i < length (ravel doms) \<and> ravel doms ! i > ravel doms ! Suc i
        then Inl (ValueError Not_increasing)
      else if last (ravel doms) < last e0mesh
        then Inl (ValueError (Max_not_included (last e0mesh)))
      else Inr ())"
proof -
  let ?d = "ravel doms"
  from assms(2) obtain m where n: "length ?d = Suc (Suc m)"
    by (cases doms) (auto simp: length_ravel)
  then have ne: "?d \<noteq> []" by auto
  have hd: "hd ?d = ?d ! 0" using ne by (simp add: hd_conv_nth)
  have last: "last ?d = ?d ! Suc m" using ne n by (simp add: last_conv_nth)
  have pre: "(check_loop e0mesh ?d [0..<Suc m] :: 'k exn + unit) =
     (if ?d ! 0 > hd e0mesh then Inl (ValueError (Min_not_included (hd e0mesh)))
      else if \<exists>i<Suc m. ?d ! i > ?d ! Suc i then Inl (ValueError Not_increasing)
      else Inr ())"
    using check_loop_prefix [OF assms(1), of "Suc m" ?d] n by simp
  have "(check_domains e0mesh ?d :: 'k exn + unit) =
      (case (check_loop e0mesh ?d [0..<Suc m] :: 'k exn + unit) of
         Inl err \<Rightarrow> Inl err
       | Inr u \<Rightarrow> check_boundary e0mesh ?d (Suc m))"
    by (simp add: check_domains_def n check_loop_append split: sum.splits)
  also have "\<dots> =
     (if ?d ! 0 > hd e0mesh then Inl (ValueError (Min_not_included (hd e0mesh)))
      else if \<exists>i<Suc m. ?d ! i > ?d ! Suc i then Inl (ValueError Not_increasing)
      else if ?d ! Suc m < last e0mesh then Inl (ValueError (Max_not_included (last e0mesh)))
      else Inr ())"
    by (simp only: pre check_boundary_last [OF assms(1) n]) auto
  finally show ?thesis
    by (simp only: hd last n) (simp only: Suc_less_eq)
qed

text \<open>
  C4 (as amended): for a list of states that is not empty and a list of domains that is not
  empty, \<open>build_scissors\<close> raises \<open>ValueError\<close>, whatever the fitting function is (no fit
  is reached), when the first boundary is above the least \<open>e0\<close>, when two consecutive
  boundaries of the flattened domains are out of order, or when the last boundary is below
  the greatest \<open>e0\<close>; the message is the one of the first of these three checks that
  fails, in this order.
\<close>

theorem build_scissors_rejects_domains:
  fixes spline :: "real list \<Rightarrow> complex list \<Rightarrow> int list option \<Rightarrow> nat \<Rightarrow> 'k exn + 'f"
    and self :: "'k QPList"
  assumes "states self \<noteq> []" and "doms \<noteq> []"
  shows
    "(Min (e0 ` set (states self)) < hd (ravel doms) \<longrightarrow>
        build_scissors spline residual self doms bounds k
          = Inl (ValueError (Min_not_included (Min (e0 ` set (states self)))))) \<and>
     (\<not> Min (e0 ` set (states self)) < hd (ravel doms) \<and>
      (\<exists>i. Suc i < length (ravel doms) \<and> ravel doms ! Suc i < ravel doms ! i) \<longrightarrow>
        build_scissors spline residual self doms bounds k = Inl (ValueError Not_increasing)) \<and>
     (\<not> Min (e0 ` set (states self)) < hd (ravel doms) \<and>
      \<not> (\<exists>i. Suc i < length (ravel doms) \<and> ravel doms ! Suc i < ravel doms ! i) \<and>
      last (ravel doms) < Max (e0 ` set (states self)) \<longrightarrow>
        build_scissors spline residual self doms bounds k
          = Inl (ValueError (Max_not_included (Max (e0 ` set (states self))))))"
proof -
  let ?m = "map e0 (sort_key e0 (states self))"
  from assms(1) have ne: "?m \<noteq> []"
    by (metis length_map length_sort length_0_conv)
  have "sorted ?m" by simp
  with ne have hd: "hd ?m = Min (e0 ` set (states self))"
    and last: "last ?m = Max (e0 ` set (states self))"
    using sorted_hd_Min [of ?m] sorted_last_Max [of ?m] by simp_all
  have b: "build_scissors spline residual self doms bounds k =
      (case (check_domains ?m (ravel doms) :: 'k exn + unit) of
         Inl err \<Rightarrow> Inl err
       | Inr u \<Rightarrow>
           (case fit_domains spline residual ?m (map qpeme0 (sort_key e0 (states self))) k
                   (if length doms = 2 then 0 else 99) doms [] [] of
              Inl err \<Rightarrow> Inl err
            | Inr (func_list, residues) \<Rightarrow>
                Inr \<lparr>sc_func_list = func_list, sc_domains = doms,
                     sc_residues = residues, sc_bounds = bounds\<rparr>))"
    using assms(2)
    by (simp add: build_scissors_def get_e0mesh_sort_by_e0 get_qpeme0_def get_field_def
          sort_by_e0_states Let_def split: sum.splits)
  show ?thesis
    unfolding b check_domains_cases [OF ne assms(2)] hd last by simp
qed

lemma two_bands_ne: "states two_bands \<noteq> []"
  by (simp add: two_bands_def)

text \<open>Witness for C4: three lists of domains, one for each check.\<close>

theorem build_scissors_rejects_domains_witness:
  "build_scissors record_fit no_residual two_bands [(2, 4), (5, 10)] (None :: unit option) 3
     = Inl (ValueError (Min_not_included 1)) \<and>
   build_scissors record_fit no_residual two_bands [(0, 4), (3, 10)] (None :: unit option) 3
     = Inl (ValueError Not_increasing) \<and>
   build_scissors record_fit no_residual two_bands [(0, 4), (5, 8)] (None :: unit option) 3
     = Inl (ValueError (Max_not_included 9))"
proof -
  have m: "Min (e0 ` set (states two_bands)) = 1" "Max (e0 ` set (states two_bands)) = 9"
    by (simp_all add: two_bands_def mk_qp_def)
  have 1: "Min (e0 ` set (states two_bands)) < hd (ravel [(2, 4), (5, 10)])"
    by (simp add: m ravel_def)
  have 2: "\<not> Min (e0 ` set (states two_bands)) < hd (ravel [(0, 4), (3, 10)]) \<and>
      (\<exists>i. Suc i < length (ravel [(0, 4), (3, 10)]) \<and>
           ravel [(0, 4), (3, 10)] ! Suc i < ravel [(0, 4), (3, 10)] ! i)"
    by (auto simp: m ravel_def intro: exI [of _ 1])
  have o: "\<not> ravel [(0, 4), (5, 8)] ! Suc i < ravel [(0, 4), (5, 8)] ! i"
    if "Suc i < length (ravel [(0, 4), (5, 8)])" for i
  proof -
    from that have "i = 0 \<or> i = 1 \<or> i = 2" by (auto simp: ravel_def)
    then show ?thesis by (auto simp: ravel_def)
  qed
  have l: "last (ravel [(0, 4), (5, 8)]) < (9::real)" "\<not> (1::real) < hd (ravel [(0, 4), (5, 8)])"
    by (simp_all add: ravel_def)
  have 3: "\<not> Min (e0 ` set (states two_bands)) < hd (ravel [(0, 4), (5, 8)]) \<and>
      \<not> (\<exists>i. Suc i < length (ravel [(0, 4), (5, 8)]) \<and>
           ravel [(0, 4), (5, 8)] ! Suc i < ravel [(0, 4), (5, 8)] ! i) \<and>
      last (ravel [(0, 4), (5, 8)]) < Max (e0 ` set (states two_bands))"
    using o l by (auto simp: m)
  from 1 2 3
    build_scissors_rejects_domains [OF two_bands_ne, of "[(2, 4), (5, 10)]" record_fit no_residual None 3]
    build_scissors_rejects_domains [OF two_bands_ne, of "[(0, 4), (3, 10)]" record_fit no_residual None 3]
    build_scissors_rejects_domains [OF two_bands_ne, of "[(0, 4), (5, 8)]" record_fit no_residual None 3]
  show ?thesis
    by (simp add: m) blast
qed

text \<open>
  Counterexample for C4 as stated (for every list): on the empty list, with boundaries out
  of order, the first test reads \<open>e0mesh[0]\<close> and the exception is \<open>IndexError\<close>.
\<close>

theorem build_scissors_empty_list_counterexample:
  "build_scissors record_fit no_residual \<lparr>states = [], is_e0sorted = False\<rparr> [(2, 1)]
     (None :: unit option) 3 = Inl IndexError"
  by code_simp

subsection \<open>The order of the input\<close>

lemma insort_samples:
  "map (\<lambda>qp. (e0 qp, qpeme0 qp)) (insort_key e0 x ys)
     = insort_key fst (e0 x, qpeme0 x) (map (\<lambda>qp. (e0 qp, qpeme0 qp)) ys)"
  by (induction ys) simp_all

lemma sorted_samples:
  "map (\<lambda>qp. (e0 qp, qpeme0 qp)) (sort_key e0 xs)
     = sort_key fst (map (\<lambda>qp. (e0 qp, qpeme0 qp)) xs)"
  by (induction xs) (simp_all add: insort_samples)

lemma sort_key_samples_eq:
  fixes xs ys :: "'k QPState list"
  assumes "mset (map (\<lambda>qp. (e0 qp, qpeme0 qp)) xs) = mset (map (\<lambda>qp. (e0 qp, qpeme0 qp)) ys)"
    and "distinct (map e0 xs)"
  shows "map e0 (sort_key e0 xs) = map e0 (sort_key e0 ys) \<and>
         map qpeme0 (sort_key e0 xs) = map qpeme0 (sort_key e0 ys)"
proof -
  let ?s = "\<lambda>qp. (e0 qp, qpeme0 qp)"
  from assms(2) have "distinct (map fst (map ?s xs))" by (simp add: comp_def)
  then have inj: "inj_on fst (set (map ?s xs))" by (simp only: distinct_map)
  have "sort_key fst (map ?s xs) = sort_key fst (map ?s ys)"
    using assms(1) by (intro sort_key_inj_key_eq [OF _ inj]) simp_all
  then have eq: "map ?s (sort_key e0 xs) = map ?s (sort_key e0 ys)"
    by (simp only: sorted_samples)
  have 1: "map e0 zs = map fst (map ?s zs)" for zs :: "'k QPState list"
    by (simp add: comp_def)
  have 2: "map qpeme0 zs = map snd (map ?s zs)" for zs :: "'k QPState list"
    by (simp add: comp_def)
  show ?thesis
    by (simp only: 1 [of "sort_key e0 xs"] 1 [of "sort_key e0 ys"]
          2 [of "sort_key e0 xs"] 2 [of "sort_key e0 ys"] eq)
qed

lemma check_boundary_errors:
  assumes "(check_boundary e0mesh dflat idx :: 'k exn + unit) = Inl err"
  shows "err \<noteq> ValueError Not_e0sorted"
  using assms by (auto simp: check_boundary_def Let_def split: if_splits)

lemma check_loop_errors:
  assumes "(check_loop e0mesh dflat idxs :: 'k exn + unit) = Inl err"
  shows "err \<noteq> ValueError Not_e0sorted"
  using assms
  by (induction idxs) (auto split: sum.splits dest: check_boundary_errors)

lemma fit_domains_errors:
  fixes spline :: "real list \<Rightarrow> complex list \<Rightarrow> int list option \<Rightarrow> nat \<Rightarrow> 'k exn + 'f"
  assumes "fit_domains spline residual e0mesh qpcorrs k ndom doms fl rs = Inl err"
    and "\<forall>x y w. spline x y w k \<noteq> Inl (ValueError Not_e0sorted)"
  shows "err \<noteq> ValueError Not_e0sorted"
  using assms(1)
proof (induction doms arbitrary: ndom fl rs)
  case Nil
  then show ?case by simp
next
  case (Cons d doms)
  obtain low high where d: "d = (low, high)" by (cases d)
  from Cons.prems assms(2) Cons.IH show ?case
    unfolding d
    by (auto simp: Let_def find_ge_def find_le_def weights_def split: sum.splits if_splits)
qed

text \<open>
  C10 (as amended): \<open>build_scissors\<close> sorts the states itself, with a stable sort: its
  result does not depend on the flag \<open>is_e0sorted\<close> of the list, it never raises the
  \<open>ValueError\<close> of \<open>get_e0mesh\<close> (unless the fitting function itself raises it), and
  two lists with the same multiset of \<open>(e0, qpeme0)\<close> samples, such as a list and a
  permutation of it, give the same result when the energies \<open>e0\<close> are pairwise distinct.
\<close>

theorem build_scissors_sorts_internally:
  fixes spline :: "real list \<Rightarrow> complex list \<Rightarrow> int list option \<Rightarrow> nat \<Rightarrow> 'k exn + 'f"
    and self other :: "'k QPList"
  shows
    "build_scissors spline residual (self\<lparr>is_e0sorted := b\<rparr>) doms bounds k
       = build_scissors spline residual self doms bounds k \<and>
     ((\<forall>x y w. spline x y w k \<noteq> Inl (ValueError Not_e0sorted)) \<longrightarrow>
        build_scissors spline residual self doms bounds k \<noteq> Inl (ValueError Not_e0sorted)) \<and>
     (mset (map (\<lambda>qp. (e0 qp, qpeme0 qp)) (states self))
        = mset (map (\<lambda>qp. (e0 qp, qpeme0 qp)) (states other)) \<and>
      distinct (map e0 (states self)) \<longrightarrow>
        build_scissors spline residual self doms bounds k
          = build_scissors spline residual other doms bounds k)"
proof (intro conjI impI)
  show "build_scissors spline residual (self\<lparr>is_e0sorted := b\<rparr>) doms bounds k
       = build_scissors spline residual self doms bounds k"
    by (simp add: build_scissors_def sort_by_e0_def)
next
  assume sp: "\<forall>x y w. spline x y w k \<noteq> Inl (ValueError Not_e0sorted)"
  show "build_scissors spline residual self doms bounds k \<noteq> Inl (ValueError Not_e0sorted)"
  proof
    assume "build_scissors spline residual self doms bounds k = Inl (ValueError Not_e0sorted)"
    then show False
      using sp
      by (auto simp: build_scissors_def get_e0mesh_sort_by_e0 Let_def check_domains_def
            split: sum.splits if_splits dest: check_loop_errors fit_domains_errors)
  qed
next
  assume "mset (map (\<lambda>qp. (e0 qp, qpeme0 qp)) (states self))
        = mset (map (\<lambda>qp. (e0 qp, qpeme0 qp)) (states other)) \<and>
      distinct (map e0 (states self))"
  then have "map e0 (sort_key e0 (states self)) = map e0 (sort_key e0 (states other))"
    and "map qpeme0 (sort_key e0 (states self)) = map qpeme0 (sort_key e0 (states other))"
    using sort_key_samples_eq [of "states self" "states other"] by simp_all
  then show "build_scissors spline residual self doms bounds k
          = build_scissors spline residual other doms bounds k"
    by (simp add: build_scissors_def get_e0mesh_sort_by_e0 get_qpeme0_def get_field_def
          sort_by_e0_states)
qed

lemma build_scissors_two_bands_swapped:
  "build_scissors record_fit no_residual two_bands_swapped [(0, 4), (5, 10)] None 3
     = Inr two_bands_swapped_scissors"
  by code_simp

text \<open>Witness for C10: three states with distinct energies, and a permutation of them.\<close>

theorem build_scissors_sorts_internally_witness:
  "mset (map (\<lambda>qp. (e0 qp, qpeme0 qp)) (states three_states))
     = mset (map (\<lambda>qp. (e0 qp, qpeme0 qp)) (states three_states_permuted)) \<and>
   distinct (map e0 (states three_states)) \<and>
   (\<forall>x y w. record_fit x y w 3 \<noteq> Inl (ValueError Not_e0sorted)) \<and>
   build_scissors record_fit no_residual three_states [(0, 7)] (None :: unit option) 3
     = build_scissors record_fit no_residual three_states_permuted [(0, 7)] None 3 \<and>
   build_scissors record_fit no_residual three_states [(0, 7)] (None :: unit option) 3
     \<noteq> Inl (ValueError Not_e0sorted)"
proof -
  have 1: "mset (map (\<lambda>qp. (e0 qp, qpeme0 qp)) (states three_states))
     = mset (map (\<lambda>qp. (e0 qp, qpeme0 qp)) (states three_states_permuted))"
    by (simp add: three_states_def three_states_permuted_def)
  have 2: "distinct (map e0 (states three_states))"
    by (simp add: three_states_def mk_qp_def)
  have 3: "\<forall>x y w. record_fit x y w 3 \<noteq> Inl (ValueError Not_e0sorted)"
    by (simp add: record_fit_def)
  from 1 2 3
    build_scissors_sorts_internally [where spline = record_fit and residual = no_residual
      and self = three_states and other = three_states_permuted and b = False
      and doms = "[(0, 7)]" and bounds = "None :: unit option" and k = 3]
  show ?thesis by blast
qed

text \<open>
  Counterexample for C10 as stated: two states of \<open>two_bands\<close> have the same \<open>e0 = 3\<close> and
  different corrections; exchanging them in the input exchanges them in the sorted list, so
  the anchoring weight 1000 of the first fit falls on another correction.
\<close>

theorem build_scissors_sorts_internally_counterexample:
  "mset (states two_bands) = mset (states two_bands_swapped) \<and>
   build_scissors record_fit no_residual two_bands [(0, 4), (5, 10)] (None :: unit option) 3
     \<noteq> build_scissors record_fit no_residual two_bands_swapped [(0, 4), (5, 10)] None 3"
  by (simp add: build_scissors_two_bands build_scissors_two_bands_swapped
        two_bands_scissors_def two_bands_swapped_scissors_def)
     (simp add: two_bands_def two_bands_swapped_def)

section \<open>Properties of interpolate\<close>

text \<open>
  C3 (as amended): when \<open>ks_ebands_kpath\<close> is given with a structure that differs from the
  structure of the file, and no \<open>ks_ebands_kmesh\<close> is given, the mismatch is not fatal:
  \<open>interpolate\<close> raises only what the same call with a matching structure raises, and
  otherwise returns the same result (which refers to the band structure given); when it
  returns, the warning is the last line that it has printed.
\<close>

theorem interpolate_kpath_mismatch_not_fatal:
  assumes "eb_structure eb \<noteq> sigres_structure self"
  shows
    "snd (interpolate ext self (Some eb) None)
       = map_sum id (\<lambda>r. r\<lparr>ks_ebands_kpath := Some eb\<rparr>)
           (snd (interpolate ext self (Some (eb\<lparr>eb_structure := sigres_structure self\<rparr>)) None)) \<and>
     (\<forall>r. snd (interpolate ext self (Some eb) None) = Inr r \<longrightarrow>
        fst (interpolate ext self (Some eb) None)
          = fst (interpolate ext self (Some (eb\<lparr>eb_structure := sigres_structure self\<rparr>)) None) @
            [''sigres.structure and ks_ebands_kpath.structures differ. Check your files!''])"
  using assms
  by (auto simp: interpolate_def Let_def split: sum.splits)

text \<open>Witness for C3: a k-path band structure on the structure 1.\<close>

theorem interpolate_kpath_mismatch_not_fatal_witness:
  "eb_structure (ks_bands 5 1) \<noteq> sigres_structure sigres_two_kpoints \<and>
   interpolate ok_ext sigres_two_kpoints (Some (ks_bands 5 1)) None
     = ([''sigres.structure and ks_ebands_kpath.structures differ. Check your files!''],
        Inr \<lparr>qp_ebands_kpath = 1, qp_ebands_kmesh = None, ks_ebands_kpath = Some (ks_bands 5 1),
             ks_ebands_kmesh = None, interpolator = ()\<rparr>)"
proof -
  have h: "eb_structure (ks_bands 5 1) \<noteq> sigres_structure sigres_two_kpoints"
    by (simp add: ks_bands_def sigres_two_kpoints_def)
  have m: "interpolate ok_ext sigres_two_kpoints
       (Some ((ks_bands 5 1)\<lparr>eb_structure := sigres_structure sigres_two_kpoints\<rparr>)) None
     = ([], Inr \<lparr>qp_ebands_kpath = 1, qp_ebands_kmesh = None,
               ks_ebands_kpath = Some (ks_bands 5 0),
               ks_ebands_kmesh = None, interpolator = ()\<rparr>)"
    by (simp add: interpolate_def ok_ext_def sigres_two_kpoints_def ks_bands_def)
  from interpolate_kpath_mismatch_not_fatal [OF h, of ok_ext] h show ?thesis
    unfolding m by (cases "interpolate ok_ext sigres_two_kpoints (Some (ks_bands 5 1)) None") simp
qed

text \<open>
  Counterexample for C3 as stated: with a \<open>ks_ebands_kmesh\<close>, the mismatch of the
  structures is fatal; the warning is printed, then \<open>ValueError\<close> is raised.
\<close>

theorem interpolate_mismatch_counterexample:
  "interpolate ok_ext sigres_two_kpoints (Some (ks_bands 5 1)) (Some (ks_bands 8 1))
     = ([''sigres.structure and ks_ebands_kpath.structures differ. Check your files!''],
        Inl (ValueError (Text
          ''sigres.structure and ks_ebands_kmesh.structures differ. Check your files!'')))"
  by (simp add: interpolate_def interpolate_kmesh_def ok_ext_def sigres_two_kpoints_def ks_bands_def)

text \<open>
  C6: with a \<open>ks_ebands_kmesh\<close> of 3 bands and \<open>bstop = 5\<close>, the exception raised is the
  \<open>NameError\<close> of the message, not \<open>ValueError\<close>; with a single GW k-point the
  exception is \<open>ValueError\<close>, as claimed.
\<close>

theorem interpolate_kmesh_few_bands:
  "interpolate ok_ext sigres_two_kpoints (Some (ks_bands 5 0)) (Some (ks_bands 3 0))
     = ([], Inl (NameError ''nband'')) \<and>
   interpolate ok_ext sigres_one_kpoint None None
     = ([], Inl (ValueError (Text ''QP Interpolation requires nkptgw > 1.'')))"
  by (simp add: interpolate_def interpolate_kmesh_def ok_ext_def sigres_two_kpoints_def
        sigres_one_kpoint_def ks_bands_def)

text \<open>A single GW k-point is refused before any collaborator is called.\<close>

lemma interpolate_single_kpoint:
  assumes "length (gwkpoints self) = 1"
  shows "\<exists>msg. interpolate ext self kpath kmesh = ([], Inl (ValueError (Text msg)))"
  using assms by (simp add: interpolate_def Let_def)

end
